theory Spec2Isabelle
  imports Complex_Main "HOL-Library.Monad_Syntax"
begin

section \<open>JavaScript values\<close>

text \<open>
  The scraper (\<^verbatim>\<open>shopify-scraper.js\<close>) works on untyped data: the body of the
  \<^verbatim>\<open>products.json\<close> feed and the JSON-LD blocks of a product page are whatever
  \<^verbatim>\<open>JSON.parse\<close> returned. A value is therefore one of the JSON shapes, plus
  \<^verbatim>\<open>undefined\<close> (the result of reading an absent property) and \<^verbatim>\<open>NaN\<close> (a result
  of \<^verbatim>\<open>parseFloat\<close>).

  Numbers other than \<^verbatim>\<open>NaN\<close> are elements of a type \<open>'n\<close> that is linearly ordered and
  has a zero: the code only compares numbers (\<^verbatim>\<open>Math.min\<close>, \<^verbatim>\<open>Math.max\<close>,
  \<^verbatim>\<open>===\<close>, \<^verbatim>\<open>> 0\<close>) and tests them for truthiness, it never computes with them.
  (\<^verbatim>\<open>-0\<close> and \<^verbatim>\<open>0\<close> are one element of \<open>'n\<close>, as they are for \<^verbatim>\<open>===\<close>.)

  A string is a list of characters, each read as the UTF-16 code unit of the same number
  (code units 0 to 255).

  An exception is the value \<open>None\<close> of an option type: every \<^verbatim>\<open>catch\<close> of the
  source catches all errors alike and only logs the message.
\<close>

datatype 'n number = NaN | Num 'n

datatype 'n jsval =
    JUndefined
  | JNull
  | JBool bool
  | JNumber "'n number"
  | JStr string
  | JArr "'n jsval list"
  | JObj "(string \<times> 'n jsval) list"

type_synonym 'a throws = "'a option"

fun truthy :: "('n::{linorder,zero}) jsval \<Rightarrow> bool" where
  "truthy JUndefined = False"
| "truthy JNull = False"
| "truthy (JBool b) = b"
| "truthy (JNumber NaN) = False"
| "truthy (JNumber (Num n)) = (n \<noteq> 0)"
| "truthy (JStr s) = (s \<noteq> [])"
| "truthy (JArr xs) = True"
| "truthy (JObj kvs) = True"

text \<open>
  \<^verbatim>\<open>v.k\<close> for a property name \<open>k\<close> other than \<^verbatim>\<open>length\<close>: a \<^verbatim>\<open>TypeError\<close> on
  \<^verbatim>\<open>undefined\<close> and \<^verbatim>\<open>null\<close>, the stored value on an object that has the property,
  \<^verbatim>\<open>undefined\<close> everywhere else. (The names the code reads are \<^verbatim>\<open>products\<close>,
  \<^verbatim>\<open>id\<close>, \<^verbatim>\<open>handle\<close>, \<^verbatim>\<open>title\<close>, \<^verbatim>\<open>body_html\<close>, \<^verbatim>\<open>variants\<close>,
  \<^verbatim>\<open>images\<close>, \<^verbatim>\<open>src\<close>, \<^verbatim>\<open>price\<close>, \<^verbatim>\<open>@type\<close>, \<^verbatim>\<open>name\<close>,
  \<^verbatim>\<open>description\<close>, \<^verbatim>\<open>offers\<close>, \<^verbatim>\<open>lowPrice\<close> and \<^verbatim>\<open>image\<close>; none of them is
  inherited by arrays, strings, numbers or booleans.)
\<close>

fun getProp :: "'n jsval \<Rightarrow> string \<Rightarrow> 'n jsval throws" where
  "getProp JUndefined k = None"
| "getProp JNull k = None"
| "getProp (JObj kvs) k = Some (case map_of kvs k of None \<Rightarrow> JUndefined | Some v \<Rightarrow> v)"
| "getProp v k = Some JUndefined"

text \<open>\<^verbatim>\<open>a || b\<close> on values.\<close>

definition orElse :: "('n::{linorder,zero}) jsval \<Rightarrow> 'n jsval \<Rightarrow> 'n jsval" where
  "orElse a b = (if truthy a then a else b)"

text \<open>\<^verbatim>\<open>xs.map(f)\<close> where \<open>f\<close> may throw: the first exception ends the map.\<close>

fun mapThrows :: "('a \<Rightarrow> 'b throws) \<Rightarrow> 'a list \<Rightarrow> 'b list throws" where
  "mapThrows f [] = Some []"
| "mapThrows f (x # xs) =
     (case f x of None \<Rightarrow> None
      | Some y \<Rightarrow> (case mapThrows f xs of None \<Rightarrow> None | Some ys \<Rightarrow> Some (y # ys)))"

section \<open>Strings\<close>

definition startsWith :: "string \<Rightarrow> string \<Rightarrow> bool" where
  "startsWith p s = (take (length p) s = p)"

text \<open>\<^verbatim>\<open>s.includes(p)\<close>.\<close>

fun includesStr :: "string \<Rightarrow> string \<Rightarrow> bool" where
  "includesStr p [] = (p = [])"
| "includesStr p (c # cs) = (startsWith p (c # cs) \<or> includesStr p cs)"

text \<open>
  White space as \<^verbatim>\<open>String.prototype.trim\<close> sees it, among the code units 0 to 255:
  tab, line feed, vertical tab, form feed, carriage return, space, no-break space.
\<close>

definition isSpace :: "char \<Rightarrow> bool" where
  "isSpace c = (of_char c \<in> {9, 10, 11, 12, 13, 32, 160 :: nat})"

definition trim :: "string \<Rightarrow> string" where
  "trim s = rev (dropWhile isSpace (rev (dropWhile isSpace s)))"

definition isDigit :: "char \<Rightarrow> bool" where
  "isDigit c = (48 \<le> (of_char c :: nat) \<and> (of_char c :: nat) \<le> 57)"

text \<open>
  The flag \<^verbatim>\<open>i\<close> of a regular expression: a pattern letter matches itself in either
  case, and no character outside ASCII matches an ASCII letter.
\<close>

definition lowerChar :: "char \<Rightarrow> char" where
  "lowerChar c =
     (if 65 \<le> (of_char c :: nat) \<and> (of_char c :: nat) \<le> 90
      then char_of (of_char c + (32 :: nat)) else c)"

fun ciPrefix :: "string \<Rightarrow> string \<Rightarrow> bool" where
  "ciPrefix [] s = True"
| "ciPrefix (p # ps) [] = False"
| "ciPrefix (p # ps) (c # cs) = (lowerChar c = p \<and> ciPrefix ps cs)"

section \<open>The Normalizer: \<^verbatim>\<open>cleanDescription\<close>\<close>

text \<open>
  \<^verbatim>\<open>html.replace(/<style[^>]*>[\s\S]*?<\/style>/gi, '')\<close> and the same with
  \<^verbatim>\<open>script\<close>. A match that starts at the head of \<open>s\<close> reads \<^verbatim>\<open><style\<close> in any
  case, then \<^verbatim>\<open>[^>]*>\<close>, which can only end at the first \<^verbatim>\<open>>\<close> that follows, then
  the lazy \<^verbatim>\<open>[\s\S]*?\<close> up to the first \<^verbatim>\<open></style>\<close> (any case) after it.
  \<open>matchBlock\<close> returns the text that follows such a match.
\<close>

fun afterGt :: "string \<Rightarrow> string option" where
  "afterGt [] = None"
| "afterGt (c # cs) = (if c = CHR ''>'' then Some cs else afterGt cs)"

fun afterClose :: "string \<Rightarrow> string \<Rightarrow> string option" where
  "afterClose pat [] = (if pat = [] then Some [] else None)"
| "afterClose pat (c # cs) =
     (if ciPrefix pat (c # cs) then Some (drop (length pat) (c # cs)) else afterClose pat cs)"

definition matchBlock :: "string \<Rightarrow> string \<Rightarrow> string option" where
  "matchBlock tag s =
     (if ciPrefix (CHR ''<'' # tag) s
      then (case afterGt (drop (Suc (length tag)) s) of
              None \<Rightarrow> None
            | Some r \<Rightarrow> afterClose (''</'' @ tag @ ''>'') r)
      else None)"

lemma afterGt_length: "afterGt s = Some r \<Longrightarrow> length r < length s"
  by (induction s) (auto split: if_splits)

lemma afterClose_length: "afterClose pat s = Some r \<Longrightarrow> length r \<le> length s"
  by (induction s) (auto split: if_splits)

lemma matchBlock_length: "matchBlock tag s = Some r \<Longrightarrow> length r < length s"
  unfolding matchBlock_def
  by (auto split: if_splits option.splits
           dest!: afterGt_length afterClose_length)

text \<open>
  The flag \<^verbatim>\<open>g\<close>: matches are looked for from left to right, and the search goes on
  after the end of each match.
\<close>

function stripBlocks :: "string \<Rightarrow> string \<Rightarrow> string" where
  "stripBlocks tag [] = []"
| "stripBlocks tag (c # cs) =
     (case matchBlock tag (c # cs) of
        Some r \<Rightarrow> stripBlocks tag r
      | None \<Rightarrow> c # stripBlocks tag cs)"
  by pat_completeness auto
termination
  by (relation "measure (\<lambda>(tag, s). length s)") (auto dest: matchBlock_length)

text \<open>
  \<^verbatim>\<open>cleanDescription(html)\<close>: the empty string for a falsy argument; a
  \<^verbatim>\<open>TypeError\<close> for a truthy argument that is not a string (it has no
  \<^verbatim>\<open>replace\<close>).
\<close>

definition cleanDescription :: "('n::{linorder,zero}) jsval \<Rightarrow> string throws" where
  "cleanDescription html =
     (if \<not> truthy html then Some []
      else (case html of
              JStr s \<Rightarrow> Some (trim (stripBlocks ''script'' (stripBlocks ''style'' s)))
            | _ \<Rightarrow> None))"

section \<open>The environment\<close>

text \<open>
  What the scraper is given from outside. Three operations of the language are parameters,
  each of which may throw, and so is \<open>maxArguments\<close>, the number of arguments the engine
  accepts in one call (a spread of more elements throws a \<^verbatim>\<open>RangeError\<close>):
  \<^item> \<open>parseFloat\<close>, the global function of that name;
  \<^item> \<open>toNumber\<close>, the conversion to a number of a string, an array or an object
    (the conversion of the other values is written out in \<open>gtZero\<close>);
  \<^item> \<open>toString\<close>, the conversion to a string of a number, an array or an object
    (the conversion of the other values is written out in \<open>templateString\<close>).

  The HTTP client is \<open>feedGet\<close> and \<open>pageGet\<close>: \<open>None\<close> when
  \<^verbatim>\<open>axiosInstance.get\<close> rejects. \<open>feedGet store page limit\<close> is
  \<^verbatim>\<open>response.data\<close> for \<^verbatim>\<open>${storeUrl}/products.json?page=${page}&limit=${limit}\<close>
  (a string when the body was not JSON); \<open>pageGet url\<close> is the document
  \<^verbatim>\<open>cheerio.load(response.data)\<close>, given by the results of the queries the code makes.

  \<open>clock k\<close> is what \<^verbatim>\<open>new Date().toISOString()\<close> returns while the record that
  will be stored at index \<open>k\<close> of \<^verbatim>\<open>productsData\<close> is built, and \<open>writeFile\<close>
  tells whether \<^verbatim>\<open>fs.writeFileSync\<close> returns (rather than throws) in this run.
  The calls of \<^verbatim>\<open>sleep\<close> and \<^verbatim>\<open>console.log\<close> change nothing that is modelled.
\<close>

record 'n page =
  links :: "string list"
    \<comment> \<open>the \<^verbatim>\<open>href\<close> of every \<^verbatim>\<open>a\<close> element that has one, in document order\<close>
  ldJson :: "'n jsval throws list"
    \<comment> \<open>\<^verbatim>\<open>JSON.parse($(element).html())\<close> for every
        \<^verbatim>\<open>script[type="application/ld+json"]\<close>, in document order\<close>
  selText :: "(string \<times> string) list"
    \<comment> \<open>selector \<open>\<mapsto>\<close> \<^verbatim>\<open>$(selector).text()\<close>, for the selectors that match\<close>
  selFirstText :: "(string \<times> string) list"
    \<comment> \<open>selector \<open>\<mapsto>\<close> \<^verbatim>\<open>$(selector).first().text()\<close>, for the selectors that match\<close>
  selHtml :: "(string \<times> string) list"
    \<comment> \<open>selector \<open>\<mapsto>\<close> \<^verbatim>\<open>$(selector).html()\<close>, for the selectors that match\<close>
  imgs :: "(string \<times> string) list list"
    \<comment> \<open>the attributes of every \<^verbatim>\<open>img\<close> element, in document order\<close>

record 'n env =
  parseFloat :: "'n jsval \<Rightarrow> 'n number throws"
  toNumber :: "'n jsval \<Rightarrow> 'n number throws"
  toString :: "'n jsval \<Rightarrow> string throws"
  feedGet :: "string \<Rightarrow> nat \<Rightarrow> nat \<Rightarrow> 'n jsval throws"
  pageGet :: "string \<Rightarrow> 'n page throws"
  maxArguments :: nat
  clock :: "nat \<Rightarrow> string"
  writeFile :: "bool"

text \<open>\<^verbatim>\<open>v > 0\<close>.\<close>

definition gtZero :: "('n::{linorder,zero}) env \<Rightarrow> 'n jsval \<Rightarrow> bool throws" where
  "gtZero env v =
     (case v of
        JUndefined \<Rightarrow> Some False
      | JNull \<Rightarrow> Some False
      | JBool b \<Rightarrow> Some b
      | JNumber NaN \<Rightarrow> Some False
      | JNumber (Num n) \<Rightarrow> Some (0 < n)
      | _ \<Rightarrow> (case toNumber env v of
                None \<Rightarrow> None
              | Some NaN \<Rightarrow> Some False
              | Some (Num n) \<Rightarrow> Some (0 < n)))"

text \<open>
  \<^verbatim>\<open>v.length > 0\<close>: the length of an array or a string is its number of elements;
  an object has the \<^verbatim>\<open>length\<close> it stores, if any.
\<close>

definition lengthGtZero :: "('n::{linorder,zero}) env \<Rightarrow> 'n jsval \<Rightarrow> bool throws" where
  "lengthGtZero env v =
     (case v of
        JUndefined \<Rightarrow> None
      | JNull \<Rightarrow> None
      | JArr xs \<Rightarrow> Some (xs \<noteq> [])
      | JStr s \<Rightarrow> Some (s \<noteq> [])
      | JObj kvs \<Rightarrow> (case map_of kvs ''length'' of None \<Rightarrow> Some False | Some l \<Rightarrow> gtZero env l)
      | _ \<Rightarrow> Some False)"

text \<open>\<^verbatim>\<open>${v}\<close> inside a template literal.\<close>

definition templateString :: "'n env \<Rightarrow> 'n jsval \<Rightarrow> string throws" where
  "templateString env v =
     (case v of
        JStr s \<Rightarrow> Some s
      | JUndefined \<Rightarrow> Some ''undefined''
      | JNull \<Rightarrow> Some ''null''
      | JBool b \<Rightarrow> Some (if b then ''true'' else ''false'')
      | _ \<Rightarrow> toString env v)"

section \<open>Product records and the Normalizer\<close>

text \<open>
  The object literal \<^verbatim>\<open>productData\<close>. The field \<^verbatim>\<open>id\<close> is \<open>id'\<close> here;
  \<open>variants\<close> is \<open>None\<close> in the records of the two page tiers, whose literals have no
  such field.
\<close>

record 'n product =
  id' :: "'n jsval"
  handle :: "'n jsval"
  title :: "'n jsval"
  description :: string
  price :: "'n jsval"
  images :: "'n jsval list"
  url :: string
  variants :: "'n jsval option"
  timestamp :: string

text \<open>
  The callback of \<^verbatim>\<open>normalizeImageUrls\<close>: \<^verbatim>\<open>null\<close> for a falsy entry, a
  \<^verbatim>\<open>TypeError\<close> for a truthy entry that is not a string (it has no
  \<^verbatim>\<open>startsWith\<close>).
\<close>

definition normalizeUrl :: "('n::{linorder,zero}) jsval \<Rightarrow> 'n jsval throws" where
  "normalizeUrl imageUrl =
     (if \<not> truthy imageUrl then Some JNull
      else (case imageUrl of
              JStr s \<Rightarrow> Some (JStr (if \<not> startsWith ''http'' s then ''https:'' @ s else s))
            | _ \<Rightarrow> None))"

text \<open>
  \<^verbatim>\<open>normalizeImageUrls(product)\<close>. Its guard
  \<^verbatim>\<open>!product.images || !Array.isArray(product.images)\<close> never holds here: \<open>images\<close>
  is an array by its type.
\<close>

definition normalizeImageUrls :: "('n::{linorder,zero}) product \<Rightarrow> 'n product throws" where
  "normalizeImageUrls product =
     (case mapThrows normalizeUrl (images product) of
        None \<Rightarrow> None
      | Some us \<Rightarrow> Some (product\<lparr>images := filter truthy us\<rparr>))"

text \<open>
  \<^verbatim>\<open>getProductPrice(product)\<close>. \<open>variantPrice\<close> is the callback
  \<^verbatim>\<open>variant => parseFloat(variant.price)\<close>; \<open>numbers\<close> is
  \<^verbatim>\<open>.filter(price => !isNaN(price))\<close>; a value that is not an array has no
  \<^verbatim>\<open>map\<close>. \<open>priceOf\<close> is what follows the filter: \<^verbatim>\<open>null\<close> for no price,
  otherwise \<^verbatim>\<open>Math.min(...prices)\<close> and \<^verbatim>\<open>Math.max(...prices)\<close>, calls with one
  argument for each price.
\<close>

definition variantPrice :: "'n env \<Rightarrow> 'n jsval \<Rightarrow> 'n number throws" where
  "variantPrice env variant =
     (case getProp variant ''price'' of None \<Rightarrow> None | Some p \<Rightarrow> parseFloat env p)"

fun numbers :: "'n number list \<Rightarrow> 'n list" where
  "numbers [] = []"
| "numbers (NaN # rs) = numbers rs"
| "numbers (Num n # rs) = n # numbers rs"

definition priceOf :: "('n::linorder) env \<Rightarrow> 'n list \<Rightarrow> 'n jsval throws" where
  "priceOf env prices =
     (case prices of
        [] \<Rightarrow> Some JNull
      | p # ps \<Rightarrow>
          if maxArguments env < length prices then None
          else (let minPrice = fold min ps p; maxPrice = fold max ps p
                in Some (if minPrice = maxPrice then JNumber (Num minPrice)
                         else JObj [(''min'', JNumber (Num minPrice)),
                                    (''max'', JNumber (Num maxPrice))])))"

definition getProductPrice :: "('n::{linorder,zero}) env \<Rightarrow> 'n jsval \<Rightarrow> 'n jsval throws" where
  "getProductPrice env product =
     (case getProp product ''variants'' of
        None \<Rightarrow> None
      | Some vs \<Rightarrow>
          if \<not> truthy vs then Some JNull
          else (case lengthGtZero env vs of
                  None \<Rightarrow> None
                | Some False \<Rightarrow> Some JNull
                | Some True \<Rightarrow>
                    (case vs of
                       JArr xs \<Rightarrow>
                         (case mapThrows (variantPrice env) xs of
                            None \<Rightarrow> None
                          | Some rs \<Rightarrow> priceOf env (numbers rs))
                     | _ \<Rightarrow> None)))"

section \<open>The feed strategy: \<^verbatim>\<open>scrapeViaApi\<close>\<close>

text \<open>
  The scraper's own state: the list \<^verbatim>\<open>this.productsData\<close>, to which records are
  pushed; the requests issued so far, oldest first; and the list last written to
  \<^verbatim>\<open>products_data.json\<close>, if any.
\<close>

datatype request = GetFeed string nat nat | GetPage string

record 'n state =
  productsData :: "'n product list"
  requests :: "request list"
  saved :: "'n product list option"

definition push :: "'n product \<Rightarrow> 'n state \<Rightarrow> 'n state" where
  "push r s = s\<lparr>productsData := productsData s @ [r]\<rparr>"

definition issue :: "request \<Rightarrow> 'n state \<Rightarrow> 'n state" where
  "issue q s = s\<lparr>requests := requests s @ [q]\<rparr>"

definition limit :: nat where
  "limit = 250"

text \<open>
  The body of \<^verbatim>\<open>for (const product of products)\<close> up to the push: the object
  literal, then \<^verbatim>\<open>normalizeImageUrls\<close>. The result is the record of one feed entry,
  or an exception.
\<close>

definition imageSrc :: "'n jsval \<Rightarrow> 'n jsval throws" where
  "imageSrc img = getProp img ''src''"

definition feedRecord ::
  "('n::{linorder,zero}) env \<Rightarrow> string \<Rightarrow> string \<Rightarrow> 'n jsval \<Rightarrow> 'n product throws" where
  "feedRecord env storeUrl now product =
     do {
       pid \<leftarrow> getProp product ''id'';
       phandle \<leftarrow> getProp product ''handle'';
       ptitle \<leftarrow> getProp product ''title'';
       body \<leftarrow> getProp product ''body_html'';
       pdescription \<leftarrow> cleanDescription body;
       pprice \<leftarrow> getProductPrice env product;
       pimages \<leftarrow> getProp product ''images'';
       srcs \<leftarrow> (case pimages of JArr xs \<Rightarrow> mapThrows imageSrc xs | _ \<Rightarrow> None);
       h \<leftarrow> templateString env phandle;
       pvariants \<leftarrow> getProp product ''variants'';
       normalizeImageUrls
         \<lparr>id' = pid, handle = phandle, title = ptitle, description = pdescription,
          price = pprice, images = srcs, url = storeUrl @ ''/products/'' @ h,
          variants = Some pvariants, timestamp = now\<rparr>
     }"

text \<open>
  The \<^verbatim>\<open>for\<close> loop over one page. The result says whether it ran to its end; when a
  record cannot be built the exception leaves the loop, and what was pushed before stays
  in \<^verbatim>\<open>productsData\<close>.
\<close>

fun pushEntries ::
  "('n::{linorder,zero}) env \<Rightarrow> string \<Rightarrow> 'n jsval list \<Rightarrow> 'n state \<Rightarrow> bool \<times> 'n state" where
  "pushEntries env storeUrl [] s = (True, s)"
| "pushEntries env storeUrl (product # rest) s =
     (case feedRecord env storeUrl (clock env (length (productsData s))) product of
        None \<Rightarrow> (False, s)
      | Some r \<Rightarrow> pushEntries env storeUrl rest (push r s))"

text \<open>
  What \<^verbatim>\<open>for ... of\<close> iterates: the elements of an array, the characters of a
  string; nothing else that \<^verbatim>\<open>JSON.parse\<close> returns is iterable.
\<close>

definition entriesOf :: "'n jsval \<Rightarrow> 'n jsval list throws" where
  "entriesOf v =
     (case v of
        JArr xs \<Rightarrow> Some xs
      | JStr s \<Rightarrow> Some (map (\<lambda>c. JStr [c]) s)
      | _ \<Rightarrow> None)"

text \<open>
  The condition
  \<^verbatim>\<open>response.data && response.data.products && response.data.products.length > 0\<close>.
\<close>

definition hasProducts :: "('n::{linorder,zero}) env \<Rightarrow> 'n jsval \<Rightarrow> bool throws" where
  "hasProducts env data =
     (if \<not> truthy data then Some False
      else (case getProp data ''products'' of
              None \<Rightarrow> None
            | Some products \<Rightarrow>
                if \<not> truthy products then Some False else lengthGtZero env products))"

text \<open>
  One turn of \<^verbatim>\<open>while (hasMoreProducts)\<close>, for the page number \<open>page\<close> and the count
  \<open>totalProducts\<close> reached so far. \<open>Continue\<close> is the branch \<^verbatim>\<open>page++\<close>, with the new
  count; \<open>Return\<close> is the value \<^verbatim>\<open>scrapeViaApi\<close> returns when the loop ends in this
  turn: \<^verbatim>\<open>false\<close> from the \<^verbatim>\<open>catch\<close> or from an empty first page, otherwise
  \<^verbatim>\<open>totalProducts > 0\<close>.
\<close>

datatype 'n turn = Continue nat "'n state" | Return bool "'n state"

definition apiPage ::
  "('n::{linorder,zero}) env \<Rightarrow> string \<Rightarrow> nat \<Rightarrow> nat \<Rightarrow> 'n state \<Rightarrow> 'n turn" where
  "apiPage env storeUrl page totalProducts s =
     (let s1 = issue (GetFeed storeUrl page limit) s in
      case feedGet env storeUrl page limit of
        None \<Rightarrow> Return False s1
      | Some data \<Rightarrow>
          (case hasProducts env data of
             None \<Rightarrow> Return False s1
           | Some True \<Rightarrow>
               (case Option.bind (getProp data ''products'') entriesOf of
                  None \<Rightarrow> Return False s1
                | Some products \<Rightarrow>
                    (case pushEntries env storeUrl products s1 of
                       (False, s2) \<Rightarrow> Return False s2
                     | (True, s2) \<Rightarrow>
                         if length products < limit
                         then Return (0 < totalProducts + length products) s2
                         else Continue (totalProducts + length products) s2))
           | Some False \<Rightarrow>
               if page = 1 then Return False s1 else Return (0 < totalProducts) s1))"

text \<open>
  The loop. Nothing bounds the number of pages a server may return, so the loop need not
  end: \<open>None\<close> is a run of \<^verbatim>\<open>scrapeViaApi\<close> that never returns.
\<close>

partial_function (option) apiLoop ::
  "('n::{linorder,zero}) env \<Rightarrow> string \<Rightarrow> nat \<Rightarrow> nat \<Rightarrow> 'n state \<Rightarrow> (bool \<times> 'n state) option" where
  "apiLoop env storeUrl page totalProducts s =
     (case apiPage env storeUrl page totalProducts s of
        Continue total' s' \<Rightarrow> apiLoop env storeUrl (page + 1) total' s'
      | Return b s' \<Rightarrow> Some (b, s'))"

definition scrapeViaApi ::
  "('n::{linorder,zero}) env \<Rightarrow> string \<Rightarrow> 'n state \<Rightarrow> (bool \<times> 'n state) option" where
  "scrapeViaApi env storeUrl s = apiLoop env storeUrl 1 0 s"

section \<open>The page tiers: \<^verbatim>\<open>scrapeProductPage\<close>\<close>

text \<open>
  \<^verbatim>\<open>url.split('/').pop().split('?')[0]\<close>: what follows the last \<^verbatim>\<open>/\<close>, up to its
  first \<^verbatim>\<open>?\<close>.
\<close>

definition lastSegment :: "string \<Rightarrow> string" where
  "lastSegment u =
     takeWhile (\<lambda>c. c \<noteq> CHR ''?'') (rev (takeWhile (\<lambda>c. c \<noteq> CHR ''/'') (rev u)))"

text \<open>
  The callback over the JSON-LD scripts, started from \<^verbatim>\<open>structuredData = null\<close>: a
  block that does not parse, or whose \<^verbatim>\<open>@type\<close> cannot be read, is skipped by the
  inner \<^verbatim>\<open>catch\<close>; the last block of type \<^verbatim>\<open>Product\<close> stays.
\<close>

fun structuredData :: "'n jsval throws list \<Rightarrow> 'n jsval \<Rightarrow> 'n jsval" where
  "structuredData [] found = found"
| "structuredData (parsed # rest) found =
     structuredData rest
       (case parsed of
          None \<Rightarrow> found
        | Some data \<Rightarrow>
            (case getProp data ''@type'' of
               None \<Rightarrow> found
             | Some ty \<Rightarrow> if ty = JStr ''Product'' then data else found))"

text \<open>\<^verbatim>\<open>extractPrice($)\<close>.\<close>

definition priceSelectors :: "string list" where
  "priceSelectors =
     [''.price__regular .price-item--regular'',
      ''.product__price'',
      ''.price-item--sale'',
      ''.product-single__price'',
      ''.price .money'',
      ''.product-price'',
      ''[data-product-price]'']"

definition isPriceChar :: "char \<Rightarrow> bool" where
  "isPriceChar c = (isDigit c \<or> c = CHR '','' \<or> c = CHR ''.'')"

text \<open>\<^verbatim>\<open>priceText.match(/[\d,.]+/)\<close>: the first longest run of such characters.\<close>

definition priceToken :: "string \<Rightarrow> string option" where
  "priceToken s =
     (case dropWhile (\<lambda>c. \<not> isPriceChar c) s of
        [] \<Rightarrow> None
      | c # cs \<Rightarrow> Some (takeWhile isPriceChar (c # cs)))"

fun extractPriceFrom :: "'n env \<Rightarrow> 'n page \<Rightarrow> string list \<Rightarrow> 'n jsval throws" where
  "extractPriceFrom env pg [] = Some JNull"
| "extractPriceFrom env pg (selector # rest) =
     (case map_of (selFirstText pg) selector of
        None \<Rightarrow> extractPriceFrom env pg rest
      | Some txt \<Rightarrow>
          (case priceToken (trim txt) of
             None \<Rightarrow> extractPriceFrom env pg rest
           | Some m \<Rightarrow>
               (case parseFloat env (JStr (filter (\<lambda>c. c \<noteq> CHR '','') m)) of
                  None \<Rightarrow> None
                | Some n \<Rightarrow> Some (JNumber n))))"

definition extractPrice :: "'n env \<Rightarrow> 'n page \<Rightarrow> 'n jsval throws" where
  "extractPrice env pg = extractPriceFrom env pg priceSelectors"

text \<open>\<^verbatim>\<open>v?.k\<close>.\<close>

definition optProp :: "'n jsval \<Rightarrow> string \<Rightarrow> 'n jsval" where
  "optProp v k = (case getProp v k of None \<Rightarrow> JUndefined | Some x \<Rightarrow> x)"

text \<open>
  The structured-data tier: the object literal built when \<^verbatim>\<open>structuredData\<close> is
  truthy. \<^verbatim>\<open>||\<close> evaluates its right operand only when the left one is falsy.
\<close>

definition structuredPrice ::
  "('n::{linorder,zero}) env \<Rightarrow> 'n page \<Rightarrow> 'n jsval \<Rightarrow> 'n jsval throws" where
  "structuredPrice env pg offers =
     (if truthy (optProp offers ''price'') then Some (optProp offers ''price'')
      else if truthy (optProp offers ''lowPrice'') then Some (optProp offers ''lowPrice'')
      else extractPrice env pg)"

definition structuredRecord ::
  "('n::{linorder,zero}) env \<Rightarrow> 'n page \<Rightarrow> string \<Rightarrow> string \<Rightarrow> 'n jsval \<Rightarrow> 'n product throws" where
  "structuredRecord env pg u now sd =
     do {
       pname \<leftarrow> getProp sd ''name'';
       d \<leftarrow> getProp sd ''description'';
       pdescription \<leftarrow> cleanDescription d;
       offers \<leftarrow> getProp sd ''offers'';
       pprice \<leftarrow> structuredPrice env pg offers;
       pimage \<leftarrow> getProp sd ''image'';
       Some \<lparr>id' = JStr (lastSegment u), handle = JStr (lastSegment u), title = pname,
             description = pdescription, price = pprice,
             images = (case pimage of JArr xs \<Rightarrow> xs | _ \<Rightarrow> [pimage]),
             url = u, variants = None, timestamp = now\<rparr>
     }"

text \<open>
  The markup tier.
  \<^verbatim>\<open>imgSrc.replace(/(\.[^.]+)(_[0-9]+x[0-9]+)(\.[^.]+)$/, '$1$3')\<close>: the third group
  ends the string, so it starts at the last dot and what follows that dot is not empty;
  the first two groups hold one dot only, so the match starts at the dot before the last;
  between these two dots stands a non-empty text without dots, then \<^verbatim>\<open>_\<close>, digits,
  \<^verbatim>\<open>x\<close>, digits. \<open>lastDot\<close> cuts a string at its last dot; \<open>sizeToken\<close> cuts the
  token off the end of a text.
\<close>

fun lastDot :: "string \<Rightarrow> (string \<times> string) option" where
  "lastDot [] = None"
| "lastDot (c # cs) =
     (case lastDot cs of
        Some (a, b) \<Rightarrow> Some (c # a, b)
      | None \<Rightarrow> if c = CHR ''.'' then Some ([], cs) else None)"

definition sizeToken :: "string \<Rightarrow> string option" where
  "sizeToken seg =
     (let height = takeWhile isDigit (rev seg);
          r1 = drop (length height) (rev seg)
      in case r1 of
           [] \<Rightarrow> None
         | x # r2 \<Rightarrow>
             (let width = takeWhile isDigit r2;
                  r3 = drop (length width) r2
              in case r3 of
                   [] \<Rightarrow> None
                 | u # body \<Rightarrow>
                     if height \<noteq> [] \<and> x = CHR ''x'' \<and> width \<noteq> [] \<and> u = CHR ''_''
                        \<and> body \<noteq> []
                     then Some (rev body) else None))"

definition fullSize :: "string \<Rightarrow> string" where
  "fullSize imgSrc =
     (case lastDot imgSrc of
        None \<Rightarrow> imgSrc
      | Some (front, ext) \<Rightarrow>
          (case lastDot front of
             None \<Rightarrow> imgSrc
           | Some (before, seg) \<Rightarrow>
               (case sizeToken seg of
                  None \<Rightarrow> imgSrc
                | Some body \<Rightarrow>
                    if ext \<noteq> [] then before @ ''.'' @ body @ ''.'' @ ext else imgSrc)))"

text \<open>
  The callback over \<^verbatim>\<open>$('img[src*="/products/"]')\<close>, for one \<^verbatim>\<open>img\<close> element
  given by its attributes: the elements the selector leaves out and those without a
  truthy \<^verbatim>\<open>imgSrc\<close> add nothing to \<^verbatim>\<open>images\<close>.
\<close>

definition selectsImg :: "(string \<times> string) list \<Rightarrow> bool" where
  "selectsImg attrs =
     (case map_of attrs ''src'' of None \<Rightarrow> False | Some v \<Rightarrow> includesStr ''/products/'' v)"

text \<open>\<^verbatim>\<open>a || b\<close> on attribute values, each a string or \<^verbatim>\<open>undefined\<close>.\<close>

definition orAttr :: "string option \<Rightarrow> string option \<Rightarrow> string option" where
  "orAttr a b = (case a of Some v \<Rightarrow> if v \<noteq> [] then a else b | None \<Rightarrow> b)"

definition imageOf :: "(string \<times> string) list \<Rightarrow> string list" where
  "imageOf attrs =
     (case orAttr (map_of attrs ''src'') (map_of attrs ''data-src'') of
        Some imgSrc \<Rightarrow>
          if imgSrc \<noteq> []
          then (let fullSizeUrl = fullSize imgSrc
                in [if startsWith ''http'' fullSizeUrl then fullSizeUrl
                    else ''https:'' @ fullSizeUrl])
          else []
      | None \<Rightarrow> [])"

definition collectImages :: "(string \<times> string) list list \<Rightarrow> string list" where
  "collectImages elements = concat (map imageOf (filter selectsImg elements))"

text \<open>\<^verbatim>\<open>[...new Set(images)]\<close>: the first occurrence of each entry, in order.\<close>

fun setOf :: "'a list \<Rightarrow> 'a list \<Rightarrow> 'a list" where
  "setOf seen [] = seen"
| "setOf seen (x # xs) = setOf (if x \<in> set seen then seen else seen @ [x]) xs"

definition selTextOf :: "(string \<times> string) list \<Rightarrow> string \<Rightarrow> string" where
  "selTextOf tab selector = (case map_of tab selector of None \<Rightarrow> [] | Some txt \<Rightarrow> txt)"

definition htmlOf :: "'n page \<Rightarrow> string \<Rightarrow> 'n jsval" where
  "htmlOf pg selector = (case map_of (selHtml pg) selector of None \<Rightarrow> JNull | Some h \<Rightarrow> JStr h)"

definition markupRecord ::
  "('n::{linorder,zero}) env \<Rightarrow> 'n page \<Rightarrow> string \<Rightarrow> string \<Rightarrow> 'n product throws" where
  "markupRecord env pg u now =
     do {
       let ptitle = orElse (JStr (trim (selTextOf (selText pg) ''.product-single__title'')))
                           (JStr (trim (selTextOf (selFirstText pg) ''h1'')));
       let pdescription = orElse (htmlOf pg ''.product-single__description'')
                            (orElse (htmlOf pg ''.product__description'')
                                    (htmlOf pg ''.description''));
       pprice \<leftarrow> extractPrice env pg;
       let pimages = collectImages (imgs pg);
       cleaned \<leftarrow> cleanDescription pdescription;
       Some \<lparr>id' = JStr (lastSegment u), handle = JStr (lastSegment u), title = ptitle,
             description = cleaned, price = pprice,
             images = map JStr (setOf [] pimages),
             url = u, variants = None, timestamp = now\<rparr>
     }"

text \<open>
  \<^verbatim>\<open>scrapeProductPage(url)\<close>. Its whole body is inside \<^verbatim>\<open>try\<close>: a request that
  fails or a record that cannot be built leaves \<^verbatim>\<open>productsData\<close> as it was. In the
  structured-data tier the record is pushed first, and then
  \<^verbatim>\<open>this.downloadProductImages\<close> is called; the class has no such method, so that
  call throws into the same \<^verbatim>\<open>catch\<close>, after the push.
\<close>

definition scrapeProductPage ::
  "('n::{linorder,zero}) env \<Rightarrow> string \<Rightarrow> 'n state \<Rightarrow> 'n state" where
  "scrapeProductPage env u s =
     (let s1 = issue (GetPage u) s;
          now = clock env (length (productsData s))
      in case pageGet env u of
           None \<Rightarrow> s1
         | Some pg \<Rightarrow>
             (let sd = structuredData (ldJson pg) JNull
              in if truthy sd
                 then (case structuredRecord env pg u now sd of
                         None \<Rightarrow> s1
                       | Some r \<Rightarrow> push r s1)
                 else (case markupRecord env pg u now of
                         None \<Rightarrow> s1
                       | Some r \<Rightarrow> push r s1)))"

section \<open>The page crawl and the coordinator\<close>

text \<open>The callback of \<^verbatim>\<open>scrapeViaHtml\<close> over \<^verbatim>\<open>$('a[href*="/products/"]')\<close>.\<close>

definition fullUrl :: "string \<Rightarrow> string \<Rightarrow> string" where
  "fullUrl storeUrl href =
     (if startsWith ''http'' href then href
      else storeUrl @ (if startsWith ''/'' href then href else ''/'' @ href))"

fun collectLinks :: "string \<Rightarrow> string list \<Rightarrow> string list \<Rightarrow> string list" where
  "collectLinks storeUrl productLinks [] = productLinks"
| "collectLinks storeUrl productLinks (href # rest) =
     collectLinks storeUrl
       (if href \<noteq> [] \<and> includesStr ''/products/'' href
           \<and> fullUrl storeUrl href \<notin> set productLinks
        then productLinks @ [fullUrl storeUrl href] else productLinks)
       rest"

fun scrapePages :: "('n::{linorder,zero}) env \<Rightarrow> string list \<Rightarrow> 'n state \<Rightarrow> 'n state" where
  "scrapePages env [] s = s"
| "scrapePages env (productUrl # rest) s = scrapePages env rest (scrapeProductPage env productUrl s)"

definition scrapeViaHtml ::
  "('n::{linorder,zero}) env \<Rightarrow> string \<Rightarrow> 'n state \<Rightarrow> bool \<times> 'n state" where
  "scrapeViaHtml env storeUrl s =
     (let s1 = issue (GetPage (storeUrl @ ''/collections/all'')) s
      in case pageGet env (storeUrl @ ''/collections/all'') of
           None \<Rightarrow> (False, s1)
         | Some pg \<Rightarrow>
             (True,
              scrapePages env
                (collectLinks storeUrl [] (filter (includesStr ''/products/'') (links pg))) s1))"

text \<open>\<^verbatim>\<open>saveProductsData()\<close>: the write either throws or stores the whole list.\<close>

definition saveProductsData :: "'n env \<Rightarrow> 'n state \<Rightarrow> 'n state throws" where
  "saveProductsData env s =
     (if writeFile env then Some (s\<lparr>saved := Some (productsData s)\<rparr>) else None)"

text \<open>
  \<^verbatim>\<open>scrape()\<close>. The two strategies catch their own exceptions, so inside the
  \<^verbatim>\<open>try\<close> only \<^verbatim>\<open>saveProductsData\<close> can throw. The result is the returned list with
  the final state; \<open>None\<close> is a run that never returns.
\<close>

definition scrape ::
  "('n::{linorder,zero}) env \<Rightarrow> string \<Rightarrow> 'n state \<Rightarrow> ('n product list \<times> 'n state) option" where
  "scrape env storeUrl s =
     (case scrapeViaApi env storeUrl s of
        None \<Rightarrow> None
      | Some (apiSuccess, s1) \<Rightarrow>
          (let s2 = (if \<not> apiSuccess then snd (scrapeViaHtml env storeUrl s1) else s1)
           in case saveProductsData env s2 of
                None \<Rightarrow> Some ([], s2)
              | Some s3 \<Rightarrow> Some (productsData s3, s3)))"

text \<open>The constructor: the store URL it keeps, and the state it starts from.\<close>

definition storeUrlOf :: "string \<Rightarrow> string" where
  "storeUrlOf given =
     (let t = trim given;
          u = (if t \<noteq> [] \<and> last t = CHR ''/'' then butlast t else t)
      in if \<not> startsWith ''https://'' u \<and> \<not> startsWith ''http://'' u
         then ''https://'' @ u else u)"

definition initial :: "'n state" where
  "initial = \<lparr>productsData = [], requests = [], saved = None\<rparr>"

section \<open>Notions used in the statements and proofs\<close>

text \<open>The state in which a turn of the feed loop ends.\<close>

primrec stateOf :: "'n turn \<Rightarrow> 'n state" where
  "stateOf (Continue cnt s) = s"
| "stateOf (Return b s) = s"

text \<open>
  \<open>hasBlock tag s\<close>: somewhere in \<open>s\<close> starts a text that the regular expression for
  \<open>tag\<close> matches.
\<close>

fun hasBlock :: "string \<Rightarrow> string \<Rightarrow> bool" where
  "hasBlock tag [] = False"
| "hasBlock tag (c # cs) = (matchBlock tag (c # cs) \<noteq> None \<or> hasBlock tag cs)"

text \<open>The entries that \<^verbatim>\<open>normalizeImageUrls\<close> leaves in \<open>images\<close>.\<close>

definition normalized :: "'n jsval \<Rightarrow> bool" where
  "normalized v = (case v of JStr s \<Rightarrow> s \<noteq> [] \<and> startsWith ''http'' s | _ \<Rightarrow> False)"

section \<open>Example inputs\<close>

text \<open>
  The numbers of the examples: the rationals and the two infinities, in their order.
  They stand for the doubles other than \<^verbatim>\<open>NaN\<close>, without rounding, overflow or
  underflow.
\<close>

datatype decimal = MinusInfinity | Finite rat | PlusInfinity

instantiation decimal :: "{linorder, zero}"
begin

definition zero_decimal :: decimal where
  "zero_decimal = Finite 0"

definition less_eq_decimal :: "decimal \<Rightarrow> decimal \<Rightarrow> bool" where
  "less_eq_decimal x y =
     (case x of
        MinusInfinity \<Rightarrow> True
      | Finite a \<Rightarrow> (case y of MinusInfinity \<Rightarrow> False | Finite b \<Rightarrow> a \<le> b | PlusInfinity \<Rightarrow> True)
      | PlusInfinity \<Rightarrow> (case y of PlusInfinity \<Rightarrow> True | _ \<Rightarrow> False))"

definition less_decimal :: "decimal \<Rightarrow> decimal \<Rightarrow> bool" where
  "less_decimal x y = (x \<le> y \<and> \<not> y \<le> (x :: decimal))"

instance
proof
  fix x y z :: decimal
  show "(x < y) = (x \<le> y \<and> \<not> y \<le> x)"
    by (simp add: less_decimal_def)
  show "x \<le> x"
    by (cases x) (simp_all add: less_eq_decimal_def)
  show "x \<le> y \<Longrightarrow> y \<le> z \<Longrightarrow> x \<le> z"
    by (cases x; cases y; cases z) (simp_all add: less_eq_decimal_def)
  show "x \<le> y \<Longrightarrow> y \<le> x \<Longrightarrow> x = y"
    by (cases x; cases y) (simp_all add: less_eq_decimal_def)
  show "x \<le> y \<or> y \<le> x"
    by (cases x; cases y) (auto simp: less_eq_decimal_def)
qed

end

text \<open>
  \<^verbatim>\<open>parseFloat\<close> on these numbers. On a string it skips leading white space and reads
  the longest prefix that is a decimal literal: a sign, then \<^verbatim>\<open>Infinity\<close>, or digits
  with an optional fraction (at least one digit before or after the dot) and an optional
  exponent (\<^verbatim>\<open>e\<close> or \<^verbatim>\<open>E\<close>, a sign, at least one digit); \<^verbatim>\<open>NaN\<close> if there is
  none. A number is returned as it is. An array is read through its string form, the
  elements joined by commas, whose decimal prefix is that of its first element. Every other
  value has a string form without such a prefix (an object is taken to have the
  \<^verbatim>\<open>toString\<close> it inherits).
\<close>

definition digitsValue :: "string \<Rightarrow> nat" where
  "digitsValue ds = foldl (\<lambda>n c. 10 * n + (of_char c - 48)) 0 ds"

definition signOf :: "string \<Rightarrow> bool \<times> string" where
  "signOf s =
     (case s of
        [] \<Rightarrow> (False, s)
      | c # r \<Rightarrow> if c = CHR ''-'' then (True, r) else if c = CHR ''+'' then (False, r)
                else (False, s))"

definition exponentOf :: "string \<Rightarrow> int" where
  "exponentOf s =
     (case s of
        [] \<Rightarrow> 0
      | c # r \<Rightarrow>
          if c = CHR ''e'' \<or> c = CHR ''E''
          then (let ds = takeWhile isDigit (snd (signOf r))
                in if ds = [] then 0
                   else if fst (signOf r) then - int (digitsValue ds) else int (digitsValue ds))
          else 0)"

definition scaled :: "rat \<Rightarrow> int \<Rightarrow> rat" where
  "scaled m e = (if 0 \<le> e then m * 10 ^ nat e else m / 10 ^ nat (- e))"

definition parseDecimal :: "string \<Rightarrow> decimal number" where
  "parseDecimal s =
     (let negative = fst (signOf (dropWhile isSpace s));
          u = snd (signOf (dropWhile isSpace s))
      in if startsWith ''Infinity'' u
         then Num (if negative then MinusInfinity else PlusInfinity)
         else (let whole = takeWhile isDigit u;
                   r1 = drop (length whole) u;
                   dotted = (r1 \<noteq> [] \<and> hd r1 = CHR ''.'');
                   fraction = (if dotted then takeWhile isDigit (tl r1) else []);
                   r2 = (if dotted then drop (length fraction) (tl r1) else r1)
               in if whole = [] \<and> fraction = [] then NaN
                  else (let m = of_nat (digitsValue whole)
                                  + of_nat (digitsValue fraction) / 10 ^ length fraction;
                            v = scaled m (exponentOf r2)
                        in Num (Finite (if negative then - v else v)))))"

fun parseFloatOf :: "decimal jsval \<Rightarrow> decimal number" where
  "parseFloatOf (JNumber r) = r"
| "parseFloatOf (JStr s) = parseDecimal s"
| "parseFloatOf (JArr (x # xs)) = parseFloatOf x"
| "parseFloatOf v = NaN"

text \<open>
  An environment for the examples. Its \<open>parseFloat\<close> is \<open>parseFloatOf\<close>, which does
  not throw; it accepts 500000 arguments in a call. The examples never reach
  \<open>toNumber\<close> and \<open>toString\<close>, for which constants stand. The feed and the pages are
  the arguments.
\<close>

definition exampleEnv ::
  "(nat \<Rightarrow> decimal jsval throws) \<Rightarrow> (string \<Rightarrow> decimal page throws) \<Rightarrow> bool \<Rightarrow> decimal env" where
  "exampleEnv feed pages written =
     \<lparr>parseFloat = (\<lambda>v. Some (parseFloatOf v)), toNumber = (\<lambda>v. Some NaN),
      toString = (\<lambda>v. Some []),
      feedGet = (\<lambda>storeUrl page n. feed page), pageGet = pages,
      maxArguments = 500000,
      clock = (\<lambda>k. ''2025-03-16T12:00:00.000Z''), writeFile = written\<rparr>"

definition noFeed :: "nat \<Rightarrow> decimal jsval throws" where
  "noFeed page = None"

definition noPages :: "string \<Rightarrow> decimal page throws" where
  "noPages u = None"

text \<open>
  Feed entries for the price: \<open>threeVariants\<close> has two priced variants and one without
  price; \<open>nullVariant\<close> has a variant that is \<^verbatim>\<open>null\<close>; \<open>manyVariants\<close> has a
  million variants of one price.
\<close>

definition threeVariants :: "decimal jsval" where
  "threeVariants =
     JObj [(''id'', JNumber (Num (Finite 7))), (''handle'', JStr ''mug''),
           (''variants'',
            JArr [JObj [(''price'', JStr ''25.00'')],
                  JObj [(''price'', JNull)],
                  JObj [(''price'', JStr ''10.00'')]])]"

definition nullVariant :: "decimal jsval" where
  "nullVariant =
     JObj [(''handle'', JStr ''mug''),
           (''variants'', JArr [JObj [(''price'', JStr ''3.00'')], JNull])]"

definition manyVariants :: "decimal jsval" where
  "manyVariants =
     JObj [(''handle'', JStr ''mug''),
           (''variants'', JArr (replicate 1000000 (JObj [(''price'', JStr ''5.00'')])))]"

text \<open>
  Example pages: \<open>onePage u pg\<close> serves the document \<open>pg\<close> at the address \<open>u\<close> and
  fails elsewhere. \<open>scenarioC\<close> has one JSON-LD block, a \<^verbatim>\<open>Product\<close> whose
  \<^verbatim>\<open>image\<close> is scheme-relative; \<open>noImage\<close> has a \<^verbatim>\<open>Product\<close> block without
  \<^verbatim>\<open>image\<close>; \<open>twiceImage\<close> has a \<^verbatim>\<open>Product\<close> block that lists one image twice.
\<close>

definition onePage :: "string \<Rightarrow> decimal page \<Rightarrow> string \<Rightarrow> decimal page throws" where
  "onePage u pg v = (if v = u then Some pg else None)"

definition ldPage :: "decimal jsval \<Rightarrow> decimal page" where
  "ldPage block =
     \<lparr>links = [], ldJson = [Some block], selText = [], selFirstText = [], selHtml = [],
      imgs = []\<rparr>"

definition scenarioC :: "decimal page" where
  "scenarioC =
     ldPage (JObj [(''@type'', JStr ''Product''), (''name'', JStr ''Mug''),
                   (''image'', JStr ''//cdn.x/a.jpg'')])"

definition noImage :: "decimal page" where
  "noImage = ldPage (JObj [(''@type'', JStr ''Product''), (''name'', JStr ''Mug'')])"

definition twiceImage :: "decimal page" where
  "twiceImage =
     ldPage (JObj [(''@type'', JStr ''Product''), (''name'', JStr ''Mug''),
                   (''image'', JArr [JStr ''https://cdn.x/a.jpg'', JStr ''https://cdn.x/a.jpg''])])"

definition mugUrl :: string where
  "mugUrl = ''https://shop.example/products/mug''"

text \<open>
  More example pages: \<open>imgPage elements\<close> has no JSON-LD block and the \<^verbatim>\<open>img\<close>
  elements given by their attributes.
\<close>

definition imgPage :: "(string \<times> string) list list \<Rightarrow> decimal page" where
  "imgPage elements =
     \<lparr>links = [], ldJson = [], selText = [], selFirstText = [], selHtml = [],
      imgs = elements\<rparr>"

definition bothSources :: "(string \<times> string) list" where
  "bothSources =
     [(''src'', ''https://cdn.x/products/a.jpg''),
      (''data-src'', ''https://cdn.x/products/b.jpg'')]"

definition relativeThumb :: "(string \<times> string) list" where
  "relativeThumb = [(''src'', ''/products/shirt_300x300.jpg'')]"

text \<open>
  Example feeds for the store \<^verbatim>\<open>https://shop.example\<close>. \<open>plainEntry\<close> is an entry as the
  feed has them; \<open>onePageFeed entries\<close> returns the entries on page 1 and fails on every
  other page.
\<close>

definition shop :: string where
  "shop = ''https://shop.example''"

definition plainEntry :: "decimal jsval" where
  "plainEntry =
     JObj [(''id'', JNumber (Num (Finite 1))), (''handle'', JStr ''mug''), (''title'', JStr ''Mug''),
           (''body_html'', JStr ''<p>A mug</p>''),
           (''variants'', JArr [JObj [(''price'', JStr ''12.00'')]]),
           (''images'', JArr [JObj [(''src'', JStr ''//cdn.x/products/mug.jpg'')]])]"

definition plainRecord :: "decimal product" where
  "plainRecord =
     \<lparr>id' = JNumber (Num (Finite 1)), handle = JStr ''mug'', title = JStr ''Mug'',
      description = ''<p>A mug</p>'', price = JNumber (Num (Finite 12)),
      images = [JStr ''https://cdn.x/products/mug.jpg''],
      url = ''https://shop.example/products/mug'',
      variants = Some (JArr [JObj [(''price'', JStr ''12.00'')]]),
      timestamp = ''2025-03-16T12:00:00.000Z''\<rparr>"

definition onePageFeed :: "decimal jsval list \<Rightarrow> nat \<Rightarrow> decimal jsval throws" where
  "onePageFeed entries page =
     (if page = 1 then Some (JObj [(''products'', JArr entries)]) else None)"

text \<open>
  A feed entry that lists the same \<^verbatim>\<open>src\<close> twice, and the record the feed tier builds
  for it.
\<close>

definition twinEntry :: "decimal jsval" where
  "twinEntry =
     JObj [(''handle'', JStr ''mug''),
           (''images'', JArr [JObj [(''src'', JStr ''https://cdn.x/a.jpg'')],
                              JObj [(''src'', JStr ''https://cdn.x/a.jpg'')]])]"

definition twinRecord :: "decimal product" where
  "twinRecord =
     \<lparr>id' = JUndefined, handle = JStr ''mug'', title = JUndefined, description = [],
      price = JNull, images = [JStr ''https://cdn.x/a.jpg'', JStr ''https://cdn.x/a.jpg''],
      url = ''https://shop.example/products/mug'', variants = Some JUndefined,
      timestamp = ''2025-03-16T12:00:00.000Z''\<rparr>"

text \<open>
  A feed entry whose description is built so that the removal of the inner block joins
  the text around it into a block.
\<close>

definition splicedEntry :: "decimal jsval" where
  "splicedEntry =
     JObj [(''handle'', JStr ''mug''),
           (''body_html'', JStr ''<scr<script></script>ipt>alert(1)</script>''),
           (''images'', JArr [JObj [(''src'', JStr ''//cdn.x/a.jpg'')], JObj []])]"

definition rawImages :: "decimal product" where
  "rawImages =
     \<lparr>id' = JUndefined, handle = JStr ''mug'', title = JUndefined,
      description = ''<p>A mug</p>'', price = JNull,
      images = [JStr ''//cdn.x/a.jpg'', JUndefined],
      url = ''https://shop.example/products/mug'', variants = Some JUndefined,
      timestamp = ''2025-03-16T12:00:00.000Z''\<rparr>"

text \<open>
  More example feeds. \<open>badEntry\<close> is an entry without \<^verbatim>\<open>images\<close>, on which
  \<^verbatim>\<open>product.images.map\<close> throws; \<open>thenBody entries body\<close> returns the entries on
  page 1, the value \<open>body\<close> as \<^verbatim>\<open>response.data\<close> on page 2, and fails on every other
  page.
\<close>

definition badEntry :: "decimal jsval" where
  "badEntry = JObj [(''handle'', JStr ''mug'')]"

definition thenBody :: "decimal jsval list \<Rightarrow> decimal jsval \<Rightarrow> nat \<Rightarrow> decimal jsval throws" where
  "thenBody entries body page =
     (if page = 1 then Some (JObj [(''products'', JArr entries)])
      else if page = 2 then Some body else None)"

text \<open>
  More example pages: a \<^verbatim>\<open>Product\<close> block whose \<^verbatim>\<open>image\<close> is an absolute URL, and
  one whose \<^verbatim>\<open>image\<close> is an object.
\<close>

definition urlImage :: "decimal page" where
  "urlImage =
     ldPage (JObj [(''@type'', JStr ''Product''), (''name'', JStr ''Mug''),
                   (''image'', JStr ''https://cdn.x/a.jpg'')])"

definition objectImage :: "decimal page" where
  "objectImage =
     ldPage (JObj [(''@type'', JStr ''Product''), (''name'', JStr ''Mug''),
                   (''image'', JObj [(''@type'', JStr ''ImageObject''),
                                     (''url'', JStr ''https://cdn.x/a.jpg'')])])"

section \<open>Facts about the model\<close>

lemma fold_min_Min: "fold min ps (p::'a::linorder) = Min (set (p # ps))"
  by (simp only: Min.set_eq_fold)

lemma fold_max_Max: "fold max ps (p::'a::linorder) = Max (set (p # ps))"
  by (simp only: Max.set_eq_fold)

lemma priceOf_Min_Max:
  "priceOf env prices =
     (if prices = [] then Some JNull
      else if maxArguments env < length prices then None
      else if Min (set prices) = Max (set prices) then Some (JNumber (Num (Min (set prices))))
      else Some (JObj [(''min'', JNumber (Num (Min (set prices)))),
                       (''max'', JNumber (Num (Max (set prices))))]))"
proof (cases prices)
  case Nil
  then show ?thesis by (simp add: priceOf_def)
next
  case (Cons p ps)
  then show ?thesis
    by (simp add: priceOf_def Let_def fold_min_Min fold_max_Max)
qed

lemma mapThrows_map: "mapThrows f xs = Some ys \<longleftrightarrow> map f xs = map Some ys"
proof (induction xs arbitrary: ys)
  case Nil
  show ?case by auto
next
  case (Cons x xs)
  from Cons [of "tl ys"] show ?case
    by (cases ys) (auto split: option.splits)
qed

lemma variantPrice_map:
  assumes "map (\<lambda>v. getProp v ''price'') xs = map Some ps"
      and "map (parseFloat env) ps = map Some rs"
  shows "mapThrows (variantPrice env) xs = Some rs"
  using assms
proof (induction xs arbitrary: ps rs)
  case Nil
  then show ?case by simp
next
  case (Cons x xs)
  then obtain p ps' where ps: "ps = p # ps'" by (cases ps) auto
  with Cons.prems obtain r rs' where rs: "rs = r # rs'" by (cases rs) auto
  from Cons.prems ps rs have "mapThrows (variantPrice env) xs = Some rs'"
    by (intro Cons.IH [of ps' rs']) simp_all
  moreover from Cons.prems ps rs have "variantPrice env x = Some r"
    by (simp add: variantPrice_def)
  ultimately show ?case
    using rs by simp
qed

lemma set_numbers: "set (numbers rs) = {n. Num n \<in> set rs}"
  by (induction rs rule: numbers.induct) auto

lemma length_numbers: "length (numbers rs) = length (filter (\<lambda>r. r \<noteq> NaN) rs)"
  by (induction rs rule: numbers.induct) auto

lemma mapThrows_replicate: "f x = Some y \<Longrightarrow> mapThrows f (replicate n x) = Some (replicate n y)"
  by (induction n) auto

lemma numbers_replicate: "numbers (replicate n (Num k)) = replicate n k"
  by (induction n) auto

lemma parse_prices:
  "parseDecimal ''25.00'' = Num (Finite 25)"
  "parseDecimal ''10.00'' = Num (Finite 10)"
  "parseDecimal ''12.00'' = Num (Finite 12)"
  "parseDecimal ''3.00'' = Num (Finite 3)"
  "parseDecimal ''5.00'' = Num (Finite 5)"
  by code_simp+

lemma exampleEnv_simps [simp]:
  "parseFloat (exampleEnv feed pages written) v = Some (parseFloatOf v)"
  "maxArguments (exampleEnv feed pages written) = 500000"
  "feedGet (exampleEnv feed pages written) storeUrl page n = feed page"
  "pageGet (exampleEnv feed pages written) = pages"
  "clock (exampleEnv feed pages written) k = ''2025-03-16T12:00:00.000Z''"
  "writeFile (exampleEnv feed pages written) = written"
  by (simp_all add: exampleEnv_def)

lemma onePage_same [simp]: "onePage u pg u = Some pg"
  by (simp add: onePage_def)

lemma scrapeProductPage_structured:
  assumes "pageGet env u = Some pg"
      and "truthy (structuredData (ldJson pg) JNull)"
      and "structuredRecord env pg u (clock env (length (productsData s)))
             (structuredData (ldJson pg) JNull) = Some r"
  shows "scrapeProductPage env u s = push r (issue (GetPage u) s)"
  using assms by (simp add: scrapeProductPage_def Let_def)

lemma scrapeProductPage_markup:
  assumes "pageGet env u = Some pg"
      and "\<not> truthy (structuredData (ldJson pg) JNull)"
      and "markupRecord env pg u (clock env (length (productsData s))) = Some r"
  shows "scrapeProductPage env u s = push r (issue (GetPage u) s)"
  using assms by (simp add: scrapeProductPage_def Let_def)

lemma structuredRecord_images:
  assumes "structuredRecord env pg u now sd = Some r"
      and "getProp sd ''image'' = Some v"
  shows "images r = (case v of JArr xs \<Rightarrow> xs | _ \<Rightarrow> [v])"
  using assms unfolding structuredRecord_def
  by (auto simp: bind_eq_Some_conv)

lemma productsData_issue [simp]: "productsData (issue q s) = productsData s"
  by (simp add: issue_def)

lemma productsData_push [simp]: "productsData (push r s) = productsData s @ [r]"
  by (simp add: push_def)

lemma requests_issue [simp]: "requests (issue q s) = requests s @ [q]"
  by (simp add: issue_def)

lemma requests_push [simp]: "requests (push r s) = requests s"
  by (simp add: push_def)

lemma includesStr_nonempty: "includesStr (p # ps) v \<Longrightarrow> v \<noteq> []"
  by (cases v) auto

lemma markupRecord_imgPage:
  "markupRecord (exampleEnv feed pages written) (imgPage elements) mugUrl now
     = Some \<lparr>id' = JStr ''mug'', handle = JStr ''mug'', title = JStr [], description = [],
             price = JNull, images = map JStr (setOf [] (collectImages elements)),
             url = mugUrl, variants = None, timestamp = now\<rparr>"
  by (simp add: markupRecord_def imgPage_def orElse_def htmlOf_def selTextOf_def trim_def
        extractPrice_def priceSelectors_def cleanDescription_def lastSegment_def mugUrl_def)

lemma scrape_imgPage:
  "map images (productsData
     (scrapeProductPage (exampleEnv feed (onePage mugUrl (imgPage elements)) written)
        mugUrl initial))
     = [map JStr (setOf [] (collectImages elements))]"
proof -
  let ?env = "exampleEnv feed (onePage mugUrl (imgPage elements)) written"
  have p: "pageGet ?env mugUrl = Some (imgPage elements)"
    by simp
  have n: "\<not> truthy (structuredData (ldJson (imgPage elements)) (JNull :: decimal jsval))"
    by (simp add: imgPage_def)
  show ?thesis
    using scrapeProductPage_markup [OF p n, of initial] markupRecord_imgPage
    by (simp add: initial_def)
qed

lemma fullSize_a: "fullSize ''https://cdn.x/products/a.jpg'' = ''https://cdn.x/products/a.jpg''"
  by code_simp

lemma fullSize_shirt: "fullSize ''/products/shirt_300x300.jpg'' = ''/products/shirt_300x300.jpg''"
  by code_simp

lemma includes_a: "includesStr ''/products/'' ''https://cdn.x/products/a.jpg''"
  by code_simp

lemma includes_shirt: "includesStr ''/products/'' ''/products/shirt_300x300.jpg''"
  by code_simp

lemma pushEntries_requests: "requests (snd (pushEntries env storeUrl ps s)) = requests s"
  by (induction ps arbitrary: s) (auto split: option.splits)

lemma pushEntries_grows:
  "\<exists>ys. productsData (snd (pushEntries env storeUrl ps s)) = productsData s @ ys"
proof (induction ps arbitrary: s)
  case Nil
  show ?case by simp
next
  case (Cons p ps)
  show ?case
  proof (cases "feedRecord env storeUrl (clock env (length (productsData s))) p")
    case None
    then show ?thesis by simp
  next
    case (Some r)
    from Cons [of "push r s"] obtain ys where
      "productsData (snd (pushEntries env storeUrl ps (push r s))) = productsData (push r s) @ ys"
      by blast
    with Some show ?thesis by simp
  qed
qed

lemma apiLoop_Return:
  "apiPage env storeUrl page cnt s = Return b s' \<Longrightarrow>
   apiLoop env storeUrl page cnt s = Some (b, s')"
  by (subst apiLoop.simps) simp

lemma apiLoop_Continue:
  "apiPage env storeUrl page cnt s = Continue cnt' s' \<Longrightarrow>
   apiLoop env storeUrl page cnt s = apiLoop env storeUrl (page + 1) cnt' s'"
  by (subst apiLoop.simps) simp

lemma apiPage_requests:
  "requests (stateOf (apiPage env storeUrl page cnt s))
     = requests s @ [GetFeed storeUrl page limit]"
proof -
  have "requests (snd (pushEntries env storeUrl ps (issue (GetFeed storeUrl page limit) s)))
          = requests s @ [GetFeed storeUrl page limit]" for ps
    by (simp add: pushEntries_requests)
  then show ?thesis
    unfolding apiPage_def Let_def
    by (auto split: option.splits bool.splits prod.splits
             simp: split_beta)
qed

lemma apiPage_failed:
  "feedGet env storeUrl page limit = None \<Longrightarrow>
   apiPage env storeUrl page cnt s = Return False (issue (GetFeed storeUrl page limit) s)"
  by (simp add: apiPage_def)

lemma hasProducts_array:
  "getProp data ''products'' = Some (JArr ps) \<Longrightarrow> hasProducts env data = Some (ps \<noteq> [])"
  by (cases data) (auto simp: hasProducts_def lengthGtZero_def)

lemma apiPage_array:
  assumes "feedGet env storeUrl page limit = Some data"
      and "getProp data ''products'' = Some (JArr ps)"
  shows "apiPage env storeUrl page cnt s =
           (let s1 = issue (GetFeed storeUrl page limit) s in
            if ps = [] then (if page = 1 then Return False s1 else Return (0 < cnt) s1)
            else if \<not> fst (pushEntries env storeUrl ps s1)
                 then Return False (snd (pushEntries env storeUrl ps s1))
            else if length ps < limit
                 then Return (0 < cnt + length ps) (snd (pushEntries env storeUrl ps s1))
            else Continue (cnt + length ps) (snd (pushEntries env storeUrl ps s1)))"
  using assms hasProducts_array [OF assms(2), of env]
  by (auto simp: apiPage_def Let_def entriesOf_def split: prod.splits bool.splits)

lemma apiPage_grows:
  "\<exists>ys. productsData (stateOf (apiPage env storeUrl page cnt s)) = productsData s @ ys"
proof -
  have "\<exists>ys. productsData (snd (pushEntries env storeUrl ps (issue q s))) = productsData s @ ys"
    for ps q
    using pushEntries_grows [of env storeUrl ps "issue q s"] by simp
  then show ?thesis
    unfolding apiPage_def Let_def
    by (auto split: option.splits bool.splits prod.splits simp: split_beta)
qed

lemma apiLoop_grows:
  assumes "apiLoop (env :: ('n::{linorder,zero}) env) storeUrl page cnt s = Some out"
  shows "\<exists>ys. productsData (snd out) = productsData s @ ys"
proof (rule apiLoop.raw_induct
         [where P = "\<lambda>env storeUrl page cnt s out.
                       \<exists>ys. productsData (snd out) = productsData s @ ys",
          OF _ assms])
  fix loop :: "'n env \<Rightarrow> string \<Rightarrow> nat \<Rightarrow> nat \<Rightarrow> 'n state \<Rightarrow> (bool \<times> 'n state) option"
    and env storeUrl page cnt s out
  assume IH: "\<And>env storeUrl page cnt s out.
                 loop env storeUrl page cnt s = Some out \<Longrightarrow>
                 \<exists>ys. productsData (snd out) = productsData s @ ys"
  assume body: "(case apiPage env storeUrl page cnt s of
                   Continue cnt' s' \<Rightarrow> loop env storeUrl (page + 1) cnt' s'
                 | Return b s' \<Rightarrow> Some (b, s')) = Some out"
  show "\<exists>ys. productsData (snd out) = productsData s @ ys"
  proof (cases "apiPage env storeUrl page cnt s")
    case (Continue cnt' s')
    with body have "loop env storeUrl (page + 1) cnt' s' = Some out" by simp
    then obtain ys where ys: "productsData (snd out) = productsData s' @ ys"
      using IH by blast
    from apiPage_grows [of env storeUrl page cnt s] Continue
    obtain zs where "productsData s' = productsData s @ zs" by auto
    with ys show ?thesis by simp
  next
    case (Return b s')
    with body have "out = (b, s')" by simp
    with apiPage_grows [of env storeUrl page cnt s] Return show ?thesis by simp
  qed
qed

lemma scrapeProductPage_grows:
  "\<exists>ys. productsData (scrapeProductPage env u s) = productsData s @ ys"
  by (auto simp: scrapeProductPage_def Let_def split: option.splits)

lemma scrapePages_grows:
  "\<exists>ys. productsData (scrapePages env us s) = productsData s @ ys"
proof (induction us arbitrary: s)
  case Nil
  show ?case by simp
next
  case (Cons u us)
  from Cons [of "scrapeProductPage env u s"] scrapeProductPage_grows [of env u s]
  show ?case by auto
qed

lemma scrapeViaHtml_grows:
  "\<exists>ys. productsData (snd (scrapeViaHtml env storeUrl s)) = productsData s @ ys"
proof (cases "pageGet env (storeUrl @ ''/collections/all'')")
  case None
  then show ?thesis by (simp add: scrapeViaHtml_def)
next
  case (Some pg)
  with scrapePages_grows
         [of env "collectLinks storeUrl [] (filter (includesStr ''/products/'') (links pg))"
             "issue (GetPage (storeUrl @ ''/collections/all'')) s"]
  show ?thesis by (simp add: scrapeViaHtml_def)
qed

lemma clean_mug: "cleanDescription (JStr ''<p>A mug</p>'' :: decimal jsval) = Some ''<p>A mug</p>''"
  by code_simp

lemma feedRecord_plainEntry:
  "feedRecord (exampleEnv feed pages written) shop ''2025-03-16T12:00:00.000Z'' plainEntry
     = Some plainRecord"
  by (simp add: feedRecord_def plainEntry_def clean_mug getProductPrice_def lengthGtZero_def
        variantPrice_def parse_prices priceOf_def imageSrc_def templateString_def
        normalizeImageUrls_def normalizeUrl_def startsWith_def plainRecord_def shop_def)

lemma pushEntries_plain:
  "pushEntries (exampleEnv feed pages written) shop (replicate n plainEntry) s
     = (True, s\<lparr>productsData := productsData s @ replicate n plainRecord\<rparr>)"
proof (induction n arbitrary: s)
  case 0
  show ?case by simp
next
  case (Suc n)
  show ?case
    by (simp add: feedRecord_plainEntry Suc push_def replicate_app_Cons_same)
qed

lemma onePageFeed_simps [simp]:
  "onePageFeed entries 1 = Some (JObj [(''products'', JArr entries)])"
  "onePageFeed entries (Suc 0) = Some (JObj [(''products'', JArr entries)])"
  "onePageFeed entries 2 = None"
  by (simp_all add: onePageFeed_def)

lemma getProp_only: "getProp (JObj [(k, v)]) k = Some v"
  by simp

text \<open>
  The run of \<^verbatim>\<open>scrapeViaApi\<close> on a feed whose first page is full and whose second
  page fails: one turn that continues, one that ends in the \<^verbatim>\<open>catch\<close>.
\<close>

lemma full_page_turn:
  "apiPage (exampleEnv (onePageFeed (replicate 250 plainEntry)) pages written) shop 1 0 initial
     = Continue 250
         \<lparr>productsData = replicate 250 plainRecord, requests = [GetFeed shop 1 250],
          saved = None\<rparr>"
  by (subst apiPage_array [where ps = "replicate 250 plainEntry"
        and data = "JObj [(''products'', JArr (replicate 250 plainEntry))]"])
     (simp_all add: limit_def pushEntries_plain initial_def issue_def)

lemma full_then_failed:
  "scrapeViaApi (exampleEnv (onePageFeed (replicate 250 plainEntry)) pages written) shop initial
     = Some (False,
         \<lparr>productsData = replicate 250 plainRecord,
          requests = [GetFeed shop 1 250, GetFeed shop 2 250], saved = None\<rparr>)"
proof -
  let ?env = "exampleEnv (onePageFeed (replicate 250 plainEntry)) pages written"
  let ?s1 = "\<lparr>productsData = replicate 250 plainRecord, requests = [GetFeed shop 1 250],
              saved = None\<rparr> :: decimal state"
  have "feedGet ?env shop 2 limit = None"
    by simp
  then have "apiPage ?env shop 2 250 ?s1 = Return False (issue (GetFeed shop 2 limit) ?s1)"
    by (rule apiPage_failed)
  then have second: "apiLoop ?env shop 2 250 ?s1 = Some (False, issue (GetFeed shop 2 limit) ?s1)"
    by (rule apiLoop_Return)
  have "apiLoop ?env shop 1 0 initial = apiLoop ?env shop (1 + 1) 250 ?s1"
    by (rule apiLoop_Continue) (rule full_page_turn)
  then have "apiLoop ?env shop 1 0 initial = apiLoop ?env shop 2 250 ?s1"
    by (simp only: one_add_one)
  with second have "apiLoop ?env shop 1 0 initial = Some (False, issue (GetFeed shop 2 limit) ?s1)"
    by (simp only:)
  then show ?thesis
    by (simp add: scrapeViaApi_def issue_def limit_def)
qed

lemma single_page:
  "scrapeViaApi (exampleEnv (onePageFeed [plainEntry]) pages written) shop initial
     = Some (True,
         \<lparr>productsData = [plainRecord], requests = [GetFeed shop 1 250], saved = None\<rparr>)"
proof -
  let ?env = "exampleEnv (onePageFeed [plainEntry]) pages written"
  have "apiPage ?env shop 1 0 initial
          = Return True \<lparr>productsData = [plainRecord], requests = [GetFeed shop 1 250],
                         saved = None\<rparr>"
    using pushEntries_plain [of "onePageFeed [plainEntry]" pages written 1]
    by (subst apiPage_array [where ps = "[plainEntry]"
          and data = "JObj [(''products'', JArr [plainEntry])]"])
       (simp_all add: limit_def initial_def issue_def)
  then show ?thesis
    unfolding scrapeViaApi_def by (rule apiLoop_Return)
qed

lemma scrapeViaHtml_noPages:
  "scrapeViaHtml (exampleEnv feed noPages written) storeUrl s
     = (False, issue (GetPage (storeUrl @ ''/collections/all'')) s)"
  by (simp add: scrapeViaHtml_def noPages_def)

lemma setOf_distinct: "distinct seen \<Longrightarrow> distinct (setOf seen xs)"
  by (induction xs arbitrary: seen) auto

lemma markupRecord_distinct:
  "markupRecord env pg u now = Some r \<Longrightarrow> distinct (images r)"
  by (auto simp: markupRecord_def Let_def bind_eq_Some_conv distinct_map setOf_distinct
           intro: inj_onI)

lemma feedRecord_twinEntry:
  "feedRecord (exampleEnv feed pages written) shop ''2025-03-16T12:00:00.000Z'' twinEntry
     = Some twinRecord"
  by (simp add: feedRecord_def twinEntry_def cleanDescription_def getProductPrice_def
        imageSrc_def templateString_def normalizeImageUrls_def normalizeUrl_def
        startsWith_def twinRecord_def shop_def)

lemma twin_page:
  "scrapeViaApi (exampleEnv (onePageFeed [twinEntry]) pages written) shop initial
     = Some (True,
         \<lparr>productsData = [twinRecord], requests = [GetFeed shop 1 250], saved = None\<rparr>)"
proof -
  let ?env = "exampleEnv (onePageFeed [twinEntry]) pages written"
  have "apiPage ?env shop 1 0 initial
          = Return True \<lparr>productsData = [twinRecord], requests = [GetFeed shop 1 250],
                         saved = None\<rparr>"
    by (subst apiPage_array [where ps = "[twinEntry]"
          and data = "JObj [(''products'', JArr [twinEntry])]"])
       (simp_all add: limit_def initial_def issue_def push_def feedRecord_twinEntry)
  then show ?thesis
    unfolding scrapeViaApi_def by (rule apiLoop_Return)
qed

lemma dropWhile_rev_trimmed:
  assumes "b = dropWhile P (rev (dropWhile P s))"
  shows "dropWhile P (rev b) = rev b"
proof (cases "b = []")
  case True
  then show ?thesis by simp
next
  case False
  let ?a = "dropWhile P s"
  from False assms have dropped: "dropWhile P (rev ?a) \<noteq> []"
    by simp
  then have ne: "rev ?a \<noteq> []"
    by (metis dropWhile.simps(1))
  from dropped obtain x where "x \<in> set (rev ?a)" "\<not> P x"
    unfolding dropWhile_eq_Nil_conv by blast
  then have "last b = last (rev ?a)"
    unfolding assms by (rule dropWhile_last)
  also from ne have "\<dots> = hd ?a"
    by (simp add: last_rev)
  finally have "hd (rev b) = hd ?a"
    using False by (simp add: hd_rev)
  moreover from ne have "\<not> P (hd ?a)"
    by (simp add: hd_dropWhile)
  ultimately show ?thesis
    by (simp add: dropWhile_eq_self_iff)
qed

lemma trim_trim: "trim (trim s) = trim s"
proof -
  let ?b = "dropWhile isSpace (rev (dropWhile isSpace s))"
  have "dropWhile isSpace (rev ?b) = rev ?b"
    by (rule dropWhile_rev_trimmed) simp
  then show ?thesis
    by (simp add: trim_def)
qed

lemma stripBlocks_none: "\<not> hasBlock tag s \<Longrightarrow> stripBlocks tag s = s"
  by (induction s) auto

lemma normalizeUrl_normalized:
  "normalizeUrl v = Some w \<Longrightarrow> truthy w \<Longrightarrow> normalized w"
  by (cases v) (auto simp: normalizeUrl_def normalized_def startsWith_def split: if_splits)

lemma mapThrows_set:
  "mapThrows f xs = Some ys \<Longrightarrow> y \<in> set ys \<Longrightarrow> \<exists>x\<in>set xs. f x = Some y"
  by (induction xs arbitrary: ys) (auto split: option.splits)

lemma normalized_fixed:
  "\<forall>v\<in>set vs. normalized v \<Longrightarrow> mapThrows normalizeUrl vs = Some vs \<and> filter truthy vs = vs"
  by (induction vs) (auto simp: normalized_def normalizeUrl_def split: jsval.splits)

lemma normalizeImageUrls_idem:
  assumes "normalizeImageUrls p = Some q"
  shows "normalizeImageUrls q = Some q"
proof -
  from assms obtain us where us: "mapThrows normalizeUrl (images p) = Some us"
    and q: "q = p\<lparr>images := filter truthy us\<rparr>"
    by (auto simp: normalizeImageUrls_def split: option.splits)
  have "\<forall>v\<in>set (filter truthy us). normalized v"
    using mapThrows_set [OF us] normalizeUrl_normalized by fastforce
  from normalized_fixed [OF this] q show ?thesis
    by (simp add: normalizeImageUrls_def)
qed

lemma trim_Nil: "trim [] = []"
  by (simp add: trim_def)

lemma cleanDescription_trimmed: "cleanDescription v = Some d \<Longrightarrow> trim d = d"
  by (cases v) (auto simp: cleanDescription_def trim_trim trim_Nil split: if_splits)

lemma cleanDescription_fixed:
  assumes "trim d = d" and "\<not> hasBlock ''style'' d" and "\<not> hasBlock ''script'' d"
  shows "cleanDescription (JStr d) = Some d"
  using assms by (simp add: cleanDescription_def stripBlocks_none)

lemma stripBlocks_length: "length (stripBlocks tag s) \<le> length s"
proof (induction tag s rule: stripBlocks.induct)
  case (1 tag)
  show ?case by simp
next
  case (2 tag c cs)
  show ?case
  proof (cases "matchBlock tag (c # cs)")
    case None
    with 2 show ?thesis by simp
  next
    case (Some r)
    with 2 matchBlock_length [OF Some] show ?thesis by simp
  qed
qed

lemma stripBlocks_shorter: "hasBlock tag s \<Longrightarrow> length (stripBlocks tag s) < length s"
proof (induction s)
  case Nil
  then show ?case by simp
next
  case (Cons c cs)
  show ?case
  proof (cases "matchBlock tag (c # cs)")
    case None
    with Cons show ?thesis by simp
  next
    case (Some r)
    with matchBlock_length [OF Some] stripBlocks_length [of tag r] show ?thesis by simp
  qed
qed

lemma trim_length: "length (trim s) \<le> length s"
proof -
  have "length (dropWhile isSpace (rev (dropWhile isSpace s))) \<le> length (dropWhile isSpace s)"
    using length_dropWhile_le [of isSpace "rev (dropWhile isSpace s)"] by simp
  also have "\<dots> \<le> length s"
    by (rule length_dropWhile_le)
  finally show ?thesis by (simp add: trim_def)
qed

lemma cleanDescription_changes:
  assumes "hasBlock ''style'' d \<or> hasBlock ''script'' d"
  shows "cleanDescription (JStr d) \<noteq> Some d"
proof -
  let ?a = "stripBlocks ''style'' d"
  let ?b = "stripBlocks ''script'' ?a"
  have "length ?b < length d"
  proof (cases "hasBlock ''style'' d")
    case True
    then have "length ?a < length d" by (rule stripBlocks_shorter)
    with stripBlocks_length [of "''script''" ?a] show ?thesis by simp
  next
    case False
    then have "?a = d" by (rule stripBlocks_none)
    moreover from False assms have "hasBlock ''script'' d" by simp
    ultimately show ?thesis by (simp add: stripBlocks_shorter)
  qed
  with trim_length [of ?b] have "length (trim ?b) < length d" by simp
  then have "trim ?b \<noteq> d" by auto
  moreover from assms have "d \<noteq> []" by auto
  ultimately show ?thesis by (simp add: cleanDescription_def)
qed

lemma clean_spliced:
  "cleanDescription (JStr ''<scr<script></script>ipt>alert(1)</script>'' :: decimal jsval)
     = Some ''<script>alert(1)</script>''"
  by code_simp

lemma clean_script: "cleanDescription (JStr ''<script>alert(1)</script>'' :: decimal jsval) = Some []"
  by code_simp

lemma feedRecord_badEntry: "feedRecord env storeUrl now badEntry = None"
  by (simp add: feedRecord_def badEntry_def cleanDescription_def getProductPrice_def)

lemma hasProducts_string: "hasProducts env (JStr body) = Some False"
  by (simp add: hasProducts_def)

lemma apiPage_no_products:
  assumes "feedGet env storeUrl page limit = Some data"
      and "hasProducts env data = Some False"
  shows "apiPage env storeUrl page cnt s =
           (if page = 1 then Return False (issue (GetFeed storeUrl page limit) s)
            else Return (0 < cnt) (issue (GetFeed storeUrl page limit) s))"
  using assms by (simp add: apiPage_def Let_def)

lemma apiPage_throws:
  assumes "feedGet env storeUrl page limit = Some data"
      and "hasProducts env data = None \<or>
           hasProducts env data = Some True \<and>
           (\<forall>ps. Option.bind (getProp data ''products'') entriesOf = Some ps \<longrightarrow>
                 \<not> fst (pushEntries env storeUrl ps (issue (GetFeed storeUrl page limit) s)))"
  shows "\<exists>s'. apiPage env storeUrl page cnt s = Return False s'"
  using assms
  by (auto simp: apiPage_def Let_def split: option.splits prod.splits bool.splits)

lemma pushEntries_plain_bad:
  "pushEntries (exampleEnv feed pages written) shop [plainEntry, badEntry] s
     = (False, s\<lparr>productsData := productsData s @ [plainRecord]\<rparr>)"
  by (simp add: feedRecord_plainEntry feedRecord_badEntry push_def)

lemma pushEntries_append:
  "pushEntries env storeUrl (xs @ ys) s =
     (if fst (pushEntries env storeUrl xs s)
      then pushEntries env storeUrl ys (snd (pushEntries env storeUrl xs s))
      else pushEntries env storeUrl xs s)"
  by (induction xs arbitrary: s) (auto split: option.splits)

lemma pushEntries_plain_then_bad:
  "fst (pushEntries (exampleEnv feed pages written) shop (replicate n plainEntry @ [badEntry]) s)
     = False"
  by (simp add: pushEntries_append pushEntries_plain feedRecord_badEntry)

lemma thenBody_simps [simp]:
  "thenBody entries body 1 = Some (JObj [(''products'', JArr entries)])"
  "thenBody entries body (Suc 0) = Some (JObj [(''products'', JArr entries)])"
  "thenBody entries body 2 = Some body"
  by (simp_all add: thenBody_def)

text \<open>
  The run of \<^verbatim>\<open>scrapeViaApi\<close> on a feed whose first page is full and whose second
  page has a body that is not JSON: one turn that continues, one that finds no products.
\<close>

lemma full_then_text:
  "scrapeViaApi (exampleEnv (thenBody (replicate 250 plainEntry) (JStr body)) pages written)
     shop initial
     = Some (True,
         \<lparr>productsData = replicate 250 plainRecord,
          requests = [GetFeed shop 1 250, GetFeed shop 2 250], saved = None\<rparr>)"
proof -
  let ?env = "exampleEnv (thenBody (replicate 250 plainEntry) (JStr body)) pages written"
  let ?s1 = "\<lparr>productsData = replicate 250 plainRecord, requests = [GetFeed shop 1 250],
              saved = None\<rparr> :: decimal state"
  have first: "apiPage ?env shop 1 0 initial = Continue 250 ?s1"
    by (subst apiPage_array [where ps = "replicate 250 plainEntry"
          and data = "JObj [(''products'', JArr (replicate 250 plainEntry))]"])
       (simp_all add: limit_def pushEntries_plain initial_def issue_def)
  have "feedGet ?env shop 2 limit = Some (JStr body)"
    by simp
  then have "apiPage ?env shop 2 250 ?s1 = Return True (issue (GetFeed shop 2 limit) ?s1)"
    using apiPage_no_products [of ?env shop 2 "JStr body" 250 ?s1]
    by (simp add: hasProducts_string)
  then have second: "apiLoop ?env shop 2 250 ?s1 = Some (True, issue (GetFeed shop 2 limit) ?s1)"
    by (rule apiLoop_Return)
  have "apiLoop ?env shop 1 0 initial = apiLoop ?env shop (1 + 1) 250 ?s1"
    by (rule apiLoop_Continue) (rule first)
  then have "apiLoop ?env shop 1 0 initial = apiLoop ?env shop 2 250 ?s1"
    by (simp only: one_add_one)
  with second have "apiLoop ?env shop 1 0 initial = Some (True, issue (GetFeed shop 2 limit) ?s1)"
    by (simp only:)
  then show ?thesis
    by (simp add: scrapeViaApi_def issue_def limit_def)
qed

text \<open>
  The run of \<^verbatim>\<open>scrapeViaApi\<close> on a feed whose first page is full and starts with an
  entry on which the code throws.
\<close>

lemma full_page_bad_entry:
  "scrapeViaApi (exampleEnv (onePageFeed (badEntry # replicate 249 plainEntry)) pages written)
     shop initial
     = Some (False, \<lparr>productsData = [], requests = [GetFeed shop 1 250], saved = None\<rparr>)"
proof -
  let ?env = "exampleEnv (onePageFeed (badEntry # replicate 249 plainEntry)) pages written"
  have "apiPage ?env shop 1 0 initial
          = Return False \<lparr>productsData = [], requests = [GetFeed shop 1 250], saved = None\<rparr>"
    by (subst apiPage_array [where ps = "badEntry # replicate 249 plainEntry"
          and data = "JObj [(''products'', JArr (badEntry # replicate 249 plainEntry))]"])
       (simp_all add: limit_def initial_def issue_def feedRecord_badEntry)
  then show ?thesis
    unfolding scrapeViaApi_def by (rule apiLoop_Return)
qed

lemma extractPriceFrom_returns:
  assumes "\<forall>t. parseFloat env (JStr t) \<noteq> None"
  shows "\<exists>p. extractPriceFrom env pg selectors = Some p"
proof (induction selectors)
  case Nil
  show ?case by simp
next
  case (Cons selector rest)
  show ?case
  proof (cases "map_of (selFirstText pg) selector")
    case None
    with Cons show ?thesis by simp
  next
    case (Some found)
    show ?thesis
    proof (cases "priceToken (trim found)")
      case None
      with Some Cons show ?thesis by simp
    next
      case (Some m)
      from assms obtain n where "parseFloat env (JStr (filter (\<lambda>c. c \<noteq> CHR '','') m)) = Some n"
        by fastforce
      with Some \<open>map_of (selFirstText pg) selector = Some found\<close> show ?thesis by simp
    qed
  qed
qed

lemma structuredPrice_returns:
  assumes "\<forall>t. parseFloat env (JStr t) \<noteq> None"
  shows "\<exists>p. structuredPrice env pg offers = Some p"
  using extractPriceFrom_returns [OF assms, of pg priceSelectors]
  by (auto simp: structuredPrice_def extractPrice_def)

lemma cleanDescription_returns:
  "\<not> truthy d \<or> (\<exists>t. d = JStr t) \<Longrightarrow> \<exists>c. cleanDescription d = Some c"
  by (auto simp: cleanDescription_def)

lemma getProp_truthy: "truthy v \<Longrightarrow> \<exists>w. getProp v k = Some w"
  by (cases v) auto

section \<open>The claims\<close>

text \<open>
  C1. What the code does when a page of the feed goes wrong. If the request fails,
  \<^verbatim>\<open>scrapeViaApi\<close> returns \<^verbatim>\<open>false\<close> and \<^verbatim>\<open>productsData\<close> holds what it held when
  the page was requested. If the page is a list \<open>ps\<close> one of whose entries throws,
  \<^verbatim>\<open>scrapeViaApi\<close> returns \<^verbatim>\<open>false\<close> in the state that the loop over \<open>ps\<close> had
  reached; and so it returns \<^verbatim>\<open>false\<close> whenever the condition on the data, the
  iteration or an entry throws. If the body is not JSON, \<^verbatim>\<open>response.data\<close> is a string,
  nothing throws, and \<^verbatim>\<open>scrapeViaApi\<close> returns \<^verbatim>\<open>false\<close> on page 1 and
  \<^verbatim>\<open>totalProducts > 0\<close> on a later page. In every case the records of the pages before
  stay: a run of the feed loop that returns, with either result, only appends to
  \<^verbatim>\<open>productsData\<close>; and what \<^verbatim>\<open>scrapeViaApi\<close> leaves there is the beginning of the list
  that \<^verbatim>\<open>scrape\<close> returns when the file is written.
\<close>

theorem feed_error_keeps_records:
  "(feedGet env storeUrl page limit = None \<longrightarrow>
      apiLoop env storeUrl page cnt s
        = Some (False, issue (GetFeed storeUrl page limit) s) \<and>
      productsData (issue (GetFeed storeUrl page limit) s) = productsData s) \<and>
   (\<forall>data ps.
      feedGet env storeUrl page limit = Some data \<and> getProp data ''products'' = Some (JArr ps)
        \<and> \<not> fst (pushEntries env storeUrl ps (issue (GetFeed storeUrl page limit) s)) \<longrightarrow>
      apiLoop env storeUrl page cnt s
        = Some (False, snd (pushEntries env storeUrl ps (issue (GetFeed storeUrl page limit) s)))) \<and>
   (\<forall>data.
      feedGet env storeUrl page limit = Some data \<and>
      (hasProducts env data = None \<or>
       hasProducts env data = Some True \<and>
       (\<forall>ps. Option.bind (getProp data ''products'') entriesOf = Some ps \<longrightarrow>
             \<not> fst (pushEntries env storeUrl ps (issue (GetFeed storeUrl page limit) s)))) \<longrightarrow>
      (\<exists>s'. apiLoop env storeUrl page cnt s = Some (False, s'))) \<and>
   (\<forall>body.
      feedGet env storeUrl page limit = Some (JStr body) \<longrightarrow>
      apiLoop env storeUrl page cnt s
        = Some (if page = 1 then False else 0 < cnt, issue (GetFeed storeUrl page limit) s)) \<and>
   (\<forall>b s'. apiLoop env storeUrl page cnt s = Some (b, s') \<longrightarrow>
      (\<exists>ys. productsData s' = productsData s @ ys)) \<and>
   (\<forall>ok s1 out s2.
      scrapeViaApi env storeUrl s = Some (ok, s1) \<and> scrape env storeUrl s = Some (out, s2)
        \<and> writeFile env \<longrightarrow>
      (\<exists>ys. out = productsData s1 @ ys))"
proof (intro conjI allI impI)
  assume "feedGet env storeUrl page limit = None"
  then have "apiPage env storeUrl page cnt s = Return False (issue (GetFeed storeUrl page limit) s)"
    by (rule apiPage_failed)
  then show "apiLoop env storeUrl page cnt s
               = Some (False, issue (GetFeed storeUrl page limit) s)"
    by (rule apiLoop_Return)
next
  show "productsData (issue (GetFeed storeUrl page limit) s) = productsData s"
    by simp
next
  fix data ps
  assume h: "feedGet env storeUrl page limit = Some data \<and>
             getProp data ''products'' = Some (JArr ps) \<and>
             \<not> fst (pushEntries env storeUrl ps (issue (GetFeed storeUrl page limit) s))"
  then have "ps \<noteq> []" by auto
  with h have "apiPage env storeUrl page cnt s
                 = Return False
                     (snd (pushEntries env storeUrl ps (issue (GetFeed storeUrl page limit) s)))"
    by (subst apiPage_array [where data = data and ps = ps]) (simp_all add: Let_def)
  then show "apiLoop env storeUrl page cnt s
        = Some (False, snd (pushEntries env storeUrl ps (issue (GetFeed storeUrl page limit) s)))"
    by (rule apiLoop_Return)
next
  fix data
  assume h: "feedGet env storeUrl page limit = Some data \<and>
      (hasProducts env data = None \<or>
       hasProducts env data = Some True \<and>
       (\<forall>ps. Option.bind (getProp data ''products'') entriesOf = Some ps \<longrightarrow>
             \<not> fst (pushEntries env storeUrl ps (issue (GetFeed storeUrl page limit) s))))"
  then obtain s' where "apiPage env storeUrl page cnt s = Return False s'"
    using apiPage_throws [of env storeUrl page data s cnt] by blast
  then have "apiLoop env storeUrl page cnt s = Some (False, s')"
    by (rule apiLoop_Return)
  then show "\<exists>s'. apiLoop env storeUrl page cnt s = Some (False, s')"
    by blast
next
  fix body
  assume "feedGet env storeUrl page limit = Some (JStr body)"
  then have "apiPage env storeUrl page cnt s =
           (if page = 1 then Return False (issue (GetFeed storeUrl page limit) s)
            else Return (0 < cnt) (issue (GetFeed storeUrl page limit) s))"
    by (rule apiPage_no_products) (rule hasProducts_string)
  then have "apiPage env storeUrl page cnt s
               = Return (if page = 1 then False else 0 < cnt)
                   (issue (GetFeed storeUrl page limit) s)"
    by simp
  then show "apiLoop env storeUrl page cnt s
        = Some (if page = 1 then False else 0 < cnt, issue (GetFeed storeUrl page limit) s)"
    by (rule apiLoop_Return)
next
  fix b s'
  assume "apiLoop env storeUrl page cnt s = Some (b, s')"
  from apiLoop_grows [OF this] show "\<exists>ys. productsData s' = productsData s @ ys"
    by simp
next
  fix ok s1 out s2
  assume run: "scrapeViaApi env storeUrl s = Some (ok, s1) \<and>
               scrape env storeUrl s = Some (out, s2) \<and> writeFile env"
  show "\<exists>ys. out = productsData s1 @ ys"
  proof (cases ok)
    case True
    with run show ?thesis
      by (auto simp: scrape_def saveProductsData_def Let_def)
  next
    case False
    with run have "out = productsData (snd (scrapeViaHtml env storeUrl s1))"
      by (auto simp: scrape_def saveProductsData_def Let_def)
    with scrapeViaHtml_grows [of env storeUrl s1] show ?thesis
      by simp
  qed
qed

theorem feed_error_keeps_records_witness:
  "feedGet (exampleEnv (onePageFeed (replicate 250 plainEntry)) noPages True) shop 2 limit
     = None \<and>
   apiLoop (exampleEnv (onePageFeed (replicate 250 plainEntry)) noPages True) shop 2 250
     \<lparr>productsData = replicate 250 plainRecord, requests = [GetFeed shop 1 250],
      saved = None\<rparr>
     = Some (False,
         \<lparr>productsData = replicate 250 plainRecord,
          requests = [GetFeed shop 1 250, GetFeed shop 2 250], saved = None\<rparr>) \<and>
   feedGet (exampleEnv (onePageFeed [plainEntry, badEntry]) noPages True) shop 1 limit
     = Some (JObj [(''products'', JArr [plainEntry, badEntry])]) \<and>
   \<not> fst (pushEntries (exampleEnv (onePageFeed [plainEntry, badEntry]) noPages True) shop
            [plainEntry, badEntry] (issue (GetFeed shop 1 limit) initial)) \<and>
   apiLoop (exampleEnv (onePageFeed [plainEntry, badEntry]) noPages True) shop 1 0 initial
     = Some (False,
         \<lparr>productsData = [plainRecord], requests = [GetFeed shop 1 250], saved = None\<rparr>) \<and>
   feedGet (exampleEnv (thenBody (replicate 250 plainEntry) (JStr ''<html>Sorry</html>''))
              noPages True) shop 2 limit
     = Some (JStr ''<html>Sorry</html>'') \<and>
   apiLoop (exampleEnv (thenBody (replicate 250 plainEntry) (JStr ''<html>Sorry</html>''))
              noPages True) shop 2 250
     \<lparr>productsData = replicate 250 plainRecord, requests = [GetFeed shop 1 250],
      saved = None\<rparr>
     = Some (True,
         \<lparr>productsData = replicate 250 plainRecord,
          requests = [GetFeed shop 1 250, GetFeed shop 2 250], saved = None\<rparr>)"
proof -
  let ?envA = "exampleEnv (onePageFeed (replicate 250 plainEntry)) noPages True"
  let ?envB = "exampleEnv (onePageFeed [plainEntry, badEntry]) noPages True"
  let ?envC = "exampleEnv (thenBody (replicate 250 plainEntry) (JStr ''<html>Sorry</html>''))
                 noPages True"
  let ?s = "\<lparr>productsData = replicate 250 plainRecord, requests = [GetFeed shop 1 250],
             saved = None\<rparr> :: decimal state"
  have fA: "feedGet ?envA shop 2 limit = None"
    by simp
  from feed_error_keeps_records [of ?envA shop 2 250 ?s, THEN conjunct1, THEN mp, OF fA]
  have a: "apiLoop ?envA shop 2 250 ?s
             = Some (False,
                 \<lparr>productsData = replicate 250 plainRecord,
                  requests = [GetFeed shop 1 250, GetFeed shop 2 250], saved = None\<rparr>)"
    by (simp add: issue_def limit_def)
  have fB: "feedGet ?envB shop 1 limit = Some (JObj [(''products'', JArr [plainEntry, badEntry])])"
    by simp
  have pB: "getProp (JObj [(''products'', JArr [plainEntry, badEntry])]) ''products''
              = Some (JArr [plainEntry, badEntry])"
    by (rule getProp_only)
  have tB: "\<not> fst (pushEntries ?envB shop [plainEntry, badEntry]
                      (issue (GetFeed shop 1 limit) initial))"
    by (simp only: pushEntries_plain_bad) simp
  from fB pB tB
  have "feedGet ?envB shop 1 limit = Some (JObj [(''products'', JArr [plainEntry, badEntry])]) \<and>
        getProp (JObj [(''products'', JArr [plainEntry, badEntry])]) ''products''
          = Some (JArr [plainEntry, badEntry]) \<and>
        \<not> fst (pushEntries ?envB shop [plainEntry, badEntry]
                 (issue (GetFeed shop 1 limit) initial))"
    by blast
  from feed_error_keeps_records [of ?envB shop 1 0 initial, THEN conjunct2, THEN conjunct1,
         THEN spec, THEN spec, THEN mp, OF this]
  have b: "apiLoop ?envB shop 1 0 initial
             = Some (False,
                 \<lparr>productsData = [plainRecord], requests = [GetFeed shop 1 250],
                  saved = None\<rparr>)"
    unfolding pushEntries_plain_bad by (simp add: issue_def limit_def initial_def)
  have fC: "feedGet ?envC shop 2 limit = Some (JStr ''<html>Sorry</html>'')"
    by simp
  from feed_error_keeps_records [of ?envC shop 2 250 ?s, THEN conjunct2, THEN conjunct2,
         THEN conjunct2, THEN conjunct1, THEN spec, THEN mp, OF fC]
  have c: "apiLoop ?envC shop 2 250 ?s
             = Some (True,
                 \<lparr>productsData = replicate 250 plainRecord,
                  requests = [GetFeed shop 1 250, GetFeed shop 2 250], saved = None\<rparr>)"
    by (simp add: issue_def limit_def)
  from fA a fB tB b fC c show ?thesis
    by (simp only:) simp
qed

text \<open>
  The claim as the spec has it fails twice on a feed whose first page is full. When the
  second page cannot be fetched the strategy reports failure, and the 250 records of the
  first page are still in \<^verbatim>\<open>productsData\<close> and in the list that \<^verbatim>\<open>scrape\<close> returns.
  When the body of the second page is not JSON the strategy reports success.
\<close>

theorem partial_feed_records_kept:
  "map_option fst
     (scrapeViaApi (exampleEnv (onePageFeed (replicate 250 plainEntry)) noPages True)
        shop initial)
     = Some False \<and>
   map_option (productsData \<circ> snd)
     (scrapeViaApi (exampleEnv (onePageFeed (replicate 250 plainEntry)) noPages True)
        shop initial)
     = Some (replicate 250 plainRecord) \<and>
   map_option fst
     (scrape (exampleEnv (onePageFeed (replicate 250 plainEntry)) noPages True) shop initial)
     = Some (replicate 250 plainRecord) \<and>
   map_option fst
     (scrapeViaApi
        (exampleEnv (thenBody (replicate 250 plainEntry) (JStr ''<html>Sorry</html>''))
           noPages True)
        shop initial)
     = Some True"
  by (simp add: scrape_def full_then_failed full_then_text scrapeViaHtml_noPages
        saveProductsData_def)

text \<open>
  C2. Scenario C: the block's \<^verbatim>\<open>image\<close> is \<^verbatim>\<open>"//cdn.x/a.jpg"\<close>. The
  structured-data tier pushes the record with that string as it is: it does not call
  \<^verbatim>\<open>normalizeImageUrls\<close>, which the feed tier calls, nor prefix \<^verbatim>\<open>https:\<close>, which
  the markup tier does. The callback of \<^verbatim>\<open>normalizeImageUrls\<close> would have made the
  string \<^verbatim>\<open>"https://cdn.x/a.jpg"\<close>.
\<close>

theorem scenarioC_images_scheme_relative:
  "map images (productsData
     (scrapeProductPage (exampleEnv noFeed (onePage mugUrl scenarioC) True) mugUrl initial))
     = [[JStr ''//cdn.x/a.jpg'']] \<and>
   normalizeUrl (JStr ''//cdn.x/a.jpg'' :: decimal jsval) = Some (JStr ''https://cdn.x/a.jpg'')"
proof -
  let ?env = "exampleEnv noFeed (onePage mugUrl scenarioC) True"
  let ?sd = "JObj [(''@type'', JStr ''Product''), (''name'', JStr ''Mug''),
                   (''image'', JStr ''//cdn.x/a.jpg'')] :: decimal jsval"
  let ?r = "\<lparr>id' = JStr ''mug'', handle = JStr ''mug'', title = JStr ''Mug'', description = [],
            price = JNull, images = [JStr ''//cdn.x/a.jpg''], url = mugUrl, variants = None,
            timestamp = ''2025-03-16T12:00:00.000Z''\<rparr> :: decimal product"
  have sd: "structuredData (ldJson scenarioC) JNull = ?sd"
    by (simp add: scenarioC_def ldPage_def)
  have p: "pageGet ?env mugUrl = Some scenarioC"
    by simp
  have t: "truthy (structuredData (ldJson scenarioC) JNull)"
    by (simp add: sd)
  have rec: "structuredRecord ?env scenarioC mugUrl ''2025-03-16T12:00:00.000Z'' ?sd = Some ?r"
    by (simp add: structuredRecord_def cleanDescription_def structuredPrice_def optProp_def
          extractPrice_def priceSelectors_def scenarioC_def ldPage_def lastSegment_def mugUrl_def)
  show ?thesis
    using scrapeProductPage_structured [OF p t, of initial ?r] rec
    by (simp add: sd initial_def normalizeUrl_def startsWith_def)
qed

text \<open>
  C3. What the code does. The derived price of a feed entry is \<^verbatim>\<open>null\<close> when its
  \<^verbatim>\<open>variants\<close> is falsy (the list is absent). When \<^verbatim>\<open>variants\<close> is a list \<open>xs\<close>
  of variants whose prices \<open>ps\<close> can be read (no variant is \<^verbatim>\<open>null\<close>) and
  \<^verbatim>\<open>parseFloat\<close> returns \<open>rs\<close> for them, the price is computed from the numbers
  among \<open>rs\<close>, the \<^verbatim>\<open>NaN\<close>s dropped: \<^verbatim>\<open>null\<close> when there is none, which includes
  the empty list; their minimum when it equals their maximum; the object
  \<^verbatim>\<open>{min, max}\<close> otherwise; except that the two spread calls throw when there are more
  numbers than the engine accepts as arguments.
\<close>

theorem getProductPrice_min_max:
  assumes "getProp product ''variants'' = Some vs"
  shows "(\<not> truthy vs \<longrightarrow> getProductPrice env product = Some JNull) \<and>
         (\<forall>xs ps rs.
            vs = JArr xs \<and> map (\<lambda>v. getProp v ''price'') xs = map Some ps
              \<and> map (parseFloat env) ps = map Some rs \<longrightarrow>
            getProductPrice env product =
              (if {n. Num n \<in> set rs} = {} then Some JNull
               else if maxArguments env < length (filter (\<lambda>r. r \<noteq> NaN) rs) then None
               else if Min {n. Num n \<in> set rs} = Max {n. Num n \<in> set rs}
                    then Some (JNumber (Num (Min {n. Num n \<in> set rs})))
                    else Some (JObj [(''min'', JNumber (Num (Min {n. Num n \<in> set rs}))),
                                     (''max'', JNumber (Num (Max {n. Num n \<in> set rs})))])))"
proof (intro conjI allI impI)
  assume "\<not> truthy vs"
  with assms show "getProductPrice env product = Some JNull"
    by (simp add: getProductPrice_def)
next
  fix xs ps rs
  assume h: "vs = JArr xs \<and> map (\<lambda>v. getProp v ''price'') xs = map Some ps
               \<and> map (parseFloat env) ps = map Some rs"
  let ?N = "{n. Num n \<in> set rs}"
  let ?result = "if ?N = {} then Some JNull
               else if maxArguments env < length (filter (\<lambda>r. r \<noteq> NaN) rs) then None
               else if Min ?N = Max ?N then Some (JNumber (Num (Min ?N)))
                    else Some (JObj [(''min'', JNumber (Num (Min ?N))),
                                     (''max'', JNumber (Num (Max ?N)))])"
  from h have prices: "mapThrows (variantPrice env) xs = Some rs"
    by (intro variantPrice_map [of xs ps]) simp_all
  have empty: "numbers rs = [] \<longleftrightarrow> ?N = {}"
    using set_numbers [of rs] by (metis set_empty)
  have computed: "priceOf env (numbers rs) = ?result"
    by (simp only: priceOf_Min_Max empty set_numbers length_numbers)
  show "getProductPrice env product = ?result"
  proof (cases xs)
    case Nil
    with prices have "rs = []" by simp
    with assms h Nil show ?thesis
      by (simp add: getProductPrice_def lengthGtZero_def)
  next
    case (Cons x xs')
    with assms h prices have "getProductPrice env product = priceOf env (numbers rs)"
      by (simp add: getProductPrice_def lengthGtZero_def)
    with computed show ?thesis by (simp only:)
  qed
qed

theorem getProductPrice_min_max_witness:
  "getProp threeVariants ''variants''
     = Some (JArr [JObj [(''price'', JStr ''25.00'')],
                   JObj [(''price'', JNull)],
                   JObj [(''price'', JStr ''10.00'')]]) \<and>
   map (\<lambda>v. getProp v ''price'')
       [JObj [(''price'', JStr ''25.00'')],
        JObj [(''price'', JNull)],
        (JObj [(''price'', JStr ''10.00'')] :: decimal jsval)]
     = map Some [JStr ''25.00'', JNull, JStr ''10.00''] \<and>
   map (parseFloat (exampleEnv noFeed noPages True)) [JStr ''25.00'', JNull, JStr ''10.00'']
     = map Some [Num (Finite 25), NaN, Num (Finite 10)] \<and>
   getProductPrice (exampleEnv noFeed noPages True) threeVariants
     = Some (JObj [(''min'', JNumber (Num (Finite 10))), (''max'', JNumber (Num (Finite 25)))])"
proof -
  let ?env = "exampleEnv noFeed noPages True"
  let ?xs = "[JObj [(''price'', JStr ''25.00'')],
              JObj [(''price'', JNull)],
              (JObj [(''price'', JStr ''10.00'')] :: decimal jsval)]"
  let ?ps = "[JStr ''25.00'', JNull, JStr ''10.00''] :: decimal jsval list"
  let ?rs = "[Num (Finite 25), NaN, Num (Finite 10)]"
  have v: "getProp threeVariants ''variants'' = Some (JArr ?xs)"
    by (simp add: threeVariants_def)
  have p: "map (\<lambda>v. getProp v ''price'') ?xs = map Some ?ps"
    by simp
  have r: "map (parseFloat ?env) ?ps = map Some ?rs"
    by (simp add: parse_prices)
  have numeric: "{n. Num n \<in> set ?rs} = {Finite 25, Finite 10}"
    by auto
  have least: "Min {Finite 25, Finite 10} = Finite 10" and most: "Max {Finite 25, Finite 10} = Finite 25"
    by (simp_all add: min_def max_def less_eq_decimal_def)
  from getProductPrice_min_max [OF v, of ?env] p r
  have "getProductPrice ?env threeVariants
          = (if {n. Num n \<in> set ?rs} = {} then Some JNull
             else if maxArguments ?env < length (filter (\<lambda>r. r \<noteq> NaN) ?rs) then None
             else if Min {n. Num n \<in> set ?rs} = Max {n. Num n \<in> set ?rs}
                  then Some (JNumber (Num (Min {n. Num n \<in> set ?rs})))
                  else Some (JObj [(''min'', JNumber (Num (Min {n. Num n \<in> set ?rs}))),
                                   (''max'', JNumber (Num (Max {n. Num n \<in> set ?rs})))]))"
    by blast
  then have "getProductPrice ?env threeVariants
     = Some (JObj [(''min'', JNumber (Num (Finite 10))), (''max'', JNumber (Num (Finite 25)))])"
    unfolding numeric least most by simp
  with v p r show ?thesis by simp
qed

text \<open>
  The claim as the spec has it, for every feed entry, fails on an entry with a variant
  that is \<^verbatim>\<open>null\<close>, whose \<^verbatim>\<open>price\<close> cannot be read, and on an entry with more
  priced variants than the engine accepts as arguments: \<^verbatim>\<open>getProductPrice\<close> throws,
  and no price is derived.
\<close>

theorem price_not_derived:
  "getProductPrice (exampleEnv noFeed noPages True) nullVariant = None \<and>
   getProductPrice (exampleEnv noFeed noPages True) manyVariants = None"
proof -
  let ?env = "exampleEnv noFeed noPages True"
  have "getProductPrice ?env nullVariant = None"
    by (simp add: getProductPrice_def nullVariant_def lengthGtZero_def variantPrice_def)
  moreover have "variantPrice ?env (JObj [(''price'', JStr ''5.00'')]) = Some (Num (Finite 5))"
    by (simp add: variantPrice_def parse_prices)
  then have "mapThrows (variantPrice ?env) (replicate 1000000 (JObj [(''price'', JStr ''5.00'')]))
               = Some (replicate 1000000 (Num (Finite 5)))"
    by (rule mapThrows_replicate)
  then have "getProductPrice ?env manyVariants = None"
    by (simp add: getProductPrice_def manyVariants_def lengthGtZero_def numbers_replicate
          priceOf_Min_Max)
  ultimately show ?thesis by simp
qed

text \<open>
  C4. What the code does for an \<^verbatim>\<open>img\<close> element that the selector
  \<^verbatim>\<open>img[src*="/products/"]\<close> picks: its \<^verbatim>\<open>src\<close> is not empty, so
  \<^verbatim>\<open>attr('src') || attr('data-src')\<close> is the \<^verbatim>\<open>src\<close>, and the one image the element
  yields is made from the \<^verbatim>\<open>src\<close>, whatever \<^verbatim>\<open>data-src\<close> holds.
\<close>

theorem src_preferred:
  assumes "selectsImg attrs"
  shows "\<exists>v. map_of attrs ''src'' = Some v \<and>
             imageOf attrs = [if startsWith ''http'' (fullSize v) then fullSize v
                              else ''https:'' @ fullSize v]"
proof -
  from assms obtain v where
    v: "map_of attrs ''src'' = Some v" and inc: "includesStr ''/products/'' v"
    by (auto simp: selectsImg_def split: option.splits)
  from inc have "v \<noteq> []" by (rule includesStr_nonempty)
  with v have "imageOf attrs = [if startsWith ''http'' (fullSize v) then fullSize v
                                else ''https:'' @ fullSize v]"
    by (simp add: imageOf_def orAttr_def Let_def)
  with v show ?thesis by blast
qed

theorem src_preferred_witness:
  "selectsImg bothSources \<and>
   map_of bothSources ''src'' = Some ''https://cdn.x/products/a.jpg'' \<and>
   map_of bothSources ''data-src'' = Some ''https://cdn.x/products/b.jpg'' \<and>
   imageOf bothSources = [''https://cdn.x/products/a.jpg'']"
proof -
  have s: "selectsImg bothSources"
    by (simp add: selectsImg_def bothSources_def includes_a del: includesStr.simps)
  from src_preferred [OF s] show ?thesis
    using s by (auto simp: bothSources_def fullSize_a startsWith_def)
qed

text \<open>
  The claim as the spec has it fails on an element with both attributes: the record's
  image is the \<^verbatim>\<open>src\<close>, and the \<^verbatim>\<open>data-src\<close> value appears nowhere.
\<close>

theorem data_src_not_preferred:
  "map images (productsData
     (scrapeProductPage (exampleEnv noFeed (onePage mugUrl (imgPage [bothSources])) True)
        mugUrl initial))
     = [[JStr ''https://cdn.x/products/a.jpg'']]"
proof -
  have "collectImages [bothSources] = [''https://cdn.x/products/a.jpg'']"
    by (simp add: collectImages_def selectsImg_def imageOf_def orAttr_def bothSources_def
          includes_a fullSize_a startsWith_def del: includesStr.simps)
  then show ?thesis
    by (simp add: scrape_imgPage)
qed

text \<open>
  C5. An \<^verbatim>\<open>img\<close> whose \<^verbatim>\<open>src\<close> is the host-relative
  \<^verbatim>\<open>/products/shirt_300x300.jpg\<close>: the file name ends in the size token before its
  extension, but the regular expression wants a dot before the name as well, finds none,
  and the token stays in the emitted URL. Behind a host name, whose dot the expression
  finds, the token of the same file name is removed.
\<close>

theorem relative_thumbnail_kept:
  "map images (productsData
     (scrapeProductPage (exampleEnv noFeed (onePage mugUrl (imgPage [relativeThumb])) True)
        mugUrl initial))
     = [[JStr ''https:/products/shirt_300x300.jpg'']] \<and>
   fullSize ''//cdn.x/products/shirt_300x300.jpg'' = ''//cdn.x/products/shirt.jpg''"
proof -
  have "collectImages [relativeThumb] = [''https:/products/shirt_300x300.jpg'']"
    by (simp add: collectImages_def selectsImg_def imageOf_def orAttr_def relativeThumb_def
          includes_shirt fullSize_shirt startsWith_def del: includesStr.simps)
  moreover have "fullSize ''//cdn.x/products/shirt_300x300.jpg'' = ''//cdn.x/products/shirt.jpg''"
    by code_simp
  ultimately show ?thesis
    by (simp add: scrape_imgPage)
qed

text \<open>
  C6. What the code does: only the markup tier removes duplicates. Every record that
  \<^verbatim>\<open>scrapeProductPage\<close> pushes for a page without a \<^verbatim>\<open>Product\<close> block has pairwise
  distinct \<open>images\<close>.
\<close>

theorem markup_images_distinct:
  assumes "pageGet env u = Some pg"
      and "\<not> truthy (structuredData (ldJson pg) JNull)"
      and "productsData (scrapeProductPage env u s) = productsData s @ [r]"
  shows "distinct (images r)"
proof -
  let ?now = "clock env (length (productsData s))"
  from assms obtain r' where
    built: "markupRecord env pg u ?now = Some r'" and "productsData s @ [r'] = productsData s @ [r]"
    by (cases "markupRecord env pg u ?now") (auto simp: scrapeProductPage_def Let_def)
  then have "r' = r" by simp
  with built show ?thesis by (simp add: markupRecord_distinct)
qed

theorem markup_images_distinct_witness:
  "pageGet (exampleEnv noFeed (onePage mugUrl (imgPage [bothSources, bothSources])) True) mugUrl
     = Some (imgPage [bothSources, bothSources]) \<and>
   collectImages [bothSources, bothSources]
     = [''https://cdn.x/products/a.jpg'', ''https://cdn.x/products/a.jpg''] \<and>
   map images (productsData
     (scrapeProductPage
        (exampleEnv noFeed (onePage mugUrl (imgPage [bothSources, bothSources])) True)
        mugUrl initial))
     = [[JStr ''https://cdn.x/products/a.jpg'']] \<and>
   distinct [JStr ''https://cdn.x/products/a.jpg'' :: decimal jsval]"
proof -
  let ?pg = "imgPage [bothSources, bothSources]"
  let ?env = "exampleEnv noFeed (onePage mugUrl ?pg) True"
  let ?r = "\<lparr>id' = JStr ''mug'', handle = JStr ''mug'', title = JStr [], description = [],
            price = JNull, images = [JStr ''https://cdn.x/products/a.jpg''],
            url = mugUrl, variants = None,
            timestamp = ''2025-03-16T12:00:00.000Z''\<rparr> :: decimal product"
  have p: "pageGet ?env mugUrl = Some ?pg"
    by simp
  have n: "\<not> truthy (structuredData (ldJson ?pg) (JNull :: decimal jsval))"
    by (simp add: imgPage_def)
  have c: "collectImages [bothSources, bothSources]
             = [''https://cdn.x/products/a.jpg'', ''https://cdn.x/products/a.jpg'']"
    by (simp add: collectImages_def selectsImg_def imageOf_def orAttr_def bothSources_def
          includes_a fullSize_a startsWith_def del: includesStr.simps)
  have run: "productsData (scrapeProductPage ?env mugUrl initial) = productsData initial @ [?r]"
    using scrapeProductPage_markup [OF p n, of initial] markupRecord_imgPage
    by (simp add: initial_def c)
  from markup_images_distinct [OF p n run] have "distinct (images ?r)" .
  with p c run show ?thesis
    by (simp add: initial_def)
qed

text \<open>
  The claim as the spec has it fails in the two other tiers. A feed entry that lists the
  same \<^verbatim>\<open>src\<close> twice, and a \<^verbatim>\<open>Product\<close> block whose \<^verbatim>\<open>image\<close> array holds the same
  URL twice, each give a record in which that URL stands twice.
\<close>

theorem duplicates_outside_markup:
  "map_option (map images \<circ> productsData \<circ> snd)
     (scrapeViaApi (exampleEnv (onePageFeed [twinEntry]) noPages True) shop initial)
     = Some [[JStr ''https://cdn.x/a.jpg'', JStr ''https://cdn.x/a.jpg'']] \<and>
   map images (productsData
     (scrapeProductPage (exampleEnv noFeed (onePage mugUrl twiceImage) True) mugUrl initial))
     = [[JStr ''https://cdn.x/a.jpg'', JStr ''https://cdn.x/a.jpg'']]"
proof -
  let ?env = "exampleEnv noFeed (onePage mugUrl twiceImage) True"
  let ?sd = "JObj [(''@type'', JStr ''Product''), (''name'', JStr ''Mug''),
                   (''image'', JArr [JStr ''https://cdn.x/a.jpg'', JStr ''https://cdn.x/a.jpg''])]
             :: decimal jsval"
  let ?r = "\<lparr>id' = JStr ''mug'', handle = JStr ''mug'', title = JStr ''Mug'', description = [],
            price = JNull,
            images = [JStr ''https://cdn.x/a.jpg'', JStr ''https://cdn.x/a.jpg''],
            url = mugUrl, variants = None,
            timestamp = ''2025-03-16T12:00:00.000Z''\<rparr> :: decimal product"
  have sd: "structuredData (ldJson twiceImage) JNull = ?sd"
    by (simp add: twiceImage_def ldPage_def)
  have p: "pageGet ?env mugUrl = Some twiceImage"
    by simp
  have t: "truthy (structuredData (ldJson twiceImage) JNull)"
    by (simp add: sd)
  have rec: "structuredRecord ?env twiceImage mugUrl ''2025-03-16T12:00:00.000Z'' ?sd = Some ?r"
    by (simp add: structuredRecord_def cleanDescription_def structuredPrice_def optProp_def
          extractPrice_def priceSelectors_def twiceImage_def ldPage_def lastSegment_def mugUrl_def)
  have page: "map images (productsData (scrapeProductPage ?env mugUrl initial))
                = [[JStr ''https://cdn.x/a.jpg'', JStr ''https://cdn.x/a.jpg'']]"
    using scrapeProductPage_structured [OF p t, of initial ?r] rec
    by (simp add: sd initial_def)
  show ?thesis
    by (simp add: twin_page page twinRecord_def)
qed

text \<open>
  C7. What the code does. Page \<open>page\<close> of the feed returns the list of entries \<open>ps\<close>.
  If there are fewer than 250 the run of \<^verbatim>\<open>scrapeViaApi\<close> ends in this turn of the
  loop, and the requests it has issued are those issued before and the one for this page:
  none for the next page. If there are exactly 250 and the loop over them runs to its end,
  the turn ends in \<^verbatim>\<open>page++\<close>, and the first thing the next turn does is to request
  page \<open>page + 1\<close>. If there are exactly 250 and one of them throws, the run ends in
  the \<^verbatim>\<open>catch\<close>: it returns \<^verbatim>\<open>false\<close>, and the request for this page is the last one
  it has issued.
\<close>

theorem pagination_rule:
  assumes "feedGet env storeUrl page 250 = Some data"
      and "getProp data ''products'' = Some (JArr ps)"
  shows "(length ps < 250 \<longrightarrow>
            (\<exists>b s'. apiLoop env storeUrl page cnt s = Some (b, s') \<and>
                    requests s' = requests s @ [GetFeed storeUrl page 250])) \<and>
         (length ps = 250 \<and>
          fst (pushEntries env storeUrl ps (issue (GetFeed storeUrl page 250) s)) \<longrightarrow>
            (\<exists>cnt' s1.
                apiPage env storeUrl page cnt s = Continue cnt' s1 \<and>
                apiLoop env storeUrl page cnt s = apiLoop env storeUrl (page + 1) cnt' s1 \<and>
                requests (stateOf (apiPage env storeUrl (page + 1) cnt' s1))
                  = requests s @ [GetFeed storeUrl page 250, GetFeed storeUrl (page + 1) 250])) \<and>
         (length ps = 250 \<and>
          \<not> fst (pushEntries env storeUrl ps (issue (GetFeed storeUrl page 250) s)) \<longrightarrow>
            (\<exists>s'. apiLoop env storeUrl page cnt s = Some (False, s') \<and>
                  requests s' = requests s @ [GetFeed storeUrl page 250]))"
proof (intro conjI impI)
  assume short: "length ps < 250"
  from assms have page: "apiPage env storeUrl page cnt s =
           (let s1 = issue (GetFeed storeUrl page limit) s in
            if ps = [] then (if page = 1 then Return False s1 else Return (0 < cnt) s1)
            else if \<not> fst (pushEntries env storeUrl ps s1)
                 then Return False (snd (pushEntries env storeUrl ps s1))
            else if length ps < limit
                 then Return (0 < cnt + length ps) (snd (pushEntries env storeUrl ps s1))
            else Continue (cnt + length ps) (snd (pushEntries env storeUrl ps s1)))"
    by (intro apiPage_array) (simp_all add: limit_def)
  from short have "\<exists>b s'. apiPage env storeUrl page cnt s = Return b s'"
    by (auto simp: page Let_def limit_def)
  then obtain b s' where ret: "apiPage env storeUrl page cnt s = Return b s'"
    by blast
  have "requests (stateOf (apiPage env storeUrl page cnt s))
          = requests s @ [GetFeed storeUrl page limit]"
    by (rule apiPage_requests)
  with ret have "requests s' = requests s @ [GetFeed storeUrl page 250]"
    by (simp add: limit_def)
  with apiLoop_Return [OF ret]
  show "\<exists>b s'. apiLoop env storeUrl page cnt s = Some (b, s') \<and>
               requests s' = requests s @ [GetFeed storeUrl page 250]"
    by blast
next
  assume full: "length ps = 250 \<and>
          fst (pushEntries env storeUrl ps (issue (GetFeed storeUrl page 250) s))"
  let ?s1 = "snd (pushEntries env storeUrl ps (issue (GetFeed storeUrl page limit) s))"
  from full have "ps \<noteq> []" by auto
  with assms full have cont: "apiPage env storeUrl page cnt s = Continue (cnt + length ps) ?s1"
    by (subst apiPage_array [where data = data and ps = ps]) (simp_all add: limit_def)
  have "requests ?s1 = requests s @ [GetFeed storeUrl page limit]"
    by (simp add: pushEntries_requests)
  then have "requests (stateOf (apiPage env storeUrl (page + 1) (cnt + length ps) ?s1))
               = requests s @ [GetFeed storeUrl page 250, GetFeed storeUrl (page + 1) 250]"
    by (simp add: apiPage_requests limit_def)
  with cont apiLoop_Continue [OF cont]
  show "\<exists>cnt' s1.
                apiPage env storeUrl page cnt s = Continue cnt' s1 \<and>
                apiLoop env storeUrl page cnt s = apiLoop env storeUrl (page + 1) cnt' s1 \<and>
                requests (stateOf (apiPage env storeUrl (page + 1) cnt' s1))
                  = requests s @ [GetFeed storeUrl page 250, GetFeed storeUrl (page + 1) 250]"
    by blast
next
  assume thrown: "length ps = 250 \<and>
          \<not> fst (pushEntries env storeUrl ps (issue (GetFeed storeUrl page 250) s))"
  let ?s1 = "snd (pushEntries env storeUrl ps (issue (GetFeed storeUrl page limit) s))"
  from thrown have "ps \<noteq> []" by auto
  with assms thrown have ret: "apiPage env storeUrl page cnt s = Return False ?s1"
    by (subst apiPage_array [where data = data and ps = ps]) (simp_all add: limit_def)
  have "requests ?s1 = requests s @ [GetFeed storeUrl page 250]"
    by (simp add: pushEntries_requests limit_def)
  with apiLoop_Return [OF ret]
  show "\<exists>s'. apiLoop env storeUrl page cnt s = Some (False, s') \<and>
             requests s' = requests s @ [GetFeed storeUrl page 250]"
    by blast
qed

theorem pagination_rule_witness:
  "feedGet (exampleEnv (onePageFeed [plainEntry]) noPages True) shop 1 250
     = Some (JObj [(''products'', JArr [plainEntry])]) \<and>
   length [plainEntry] < 250 \<and>
   map_option (requests \<circ> snd)
     (apiLoop (exampleEnv (onePageFeed [plainEntry]) noPages True) shop 1 0 initial)
     = Some [GetFeed shop 1 250] \<and>
   feedGet (exampleEnv (onePageFeed (replicate 250 plainEntry)) noPages True) shop 1 250
     = Some (JObj [(''products'', JArr (replicate 250 plainEntry))]) \<and>
   length (replicate 250 plainEntry) = 250 \<and>
   fst (pushEntries (exampleEnv (onePageFeed (replicate 250 plainEntry)) noPages True) shop
          (replicate 250 plainEntry) (issue (GetFeed shop 1 250) initial)) \<and>
   requests (stateOf
     (apiPage (exampleEnv (onePageFeed (replicate 250 plainEntry)) noPages True) shop 2 250
        \<lparr>productsData = replicate 250 plainRecord, requests = [GetFeed shop 1 250],
         saved = None\<rparr>))
     = [GetFeed shop 1 250, GetFeed shop 2 250] \<and>
   feedGet (exampleEnv (onePageFeed (replicate 249 plainEntry @ [badEntry])) noPages True)
     shop 1 250
     = Some (JObj [(''products'', JArr (replicate 249 plainEntry @ [badEntry]))]) \<and>
   length (replicate 249 plainEntry @ [badEntry]) = 250 \<and>
   \<not> fst (pushEntries (exampleEnv (onePageFeed (replicate 249 plainEntry @ [badEntry]))
                     noPages True)
            shop (replicate 249 plainEntry @ [badEntry]) (issue (GetFeed shop 1 250) initial)) \<and>
   map_option (\<lambda>r. (fst r, requests (snd r)))
     (apiLoop (exampleEnv (onePageFeed (replicate 249 plainEntry @ [badEntry])) noPages True)
        shop 1 0 initial)
     = Some (False, [GetFeed shop 1 250])"
proof -
  let ?envC = "exampleEnv (onePageFeed (replicate 249 plainEntry @ [badEntry])) noPages True"
  let ?envA = "exampleEnv (onePageFeed [plainEntry]) noPages True"
  let ?envB = "exampleEnv (onePageFeed (replicate 250 plainEntry)) noPages True"
  have fA: "feedGet ?envA shop 1 250 = Some (JObj [(''products'', JArr [plainEntry])])"
    by simp
  have pA: "getProp (JObj [(''products'', JArr [plainEntry])]) ''products''
              = Some (JArr [plainEntry])"
    by (rule getProp_only)
  have fB: "feedGet ?envB shop 1 250
              = Some (JObj [(''products'', JArr (replicate 250 plainEntry))])"
    by simp
  have pB: "getProp (JObj [(''products'', JArr (replicate 250 plainEntry))]) ''products''
              = Some (JArr (replicate 250 plainEntry))"
    by (rule getProp_only)
  have ok: "fst (pushEntries ?envB shop (replicate 250 plainEntry)
                   (issue (GetFeed shop 1 250) initial))"
    by (simp add: pushEntries_plain)
  from pagination_rule [OF fA pA, where cnt = 0 and s = initial]
  have a: "map_option (requests \<circ> snd) (apiLoop ?envA shop 1 0 initial)
             = Some [GetFeed shop 1 250]"
    by (auto simp: initial_def)
  from ok have full: "length (replicate 250 plainEntry) = 250 \<and>
      fst (pushEntries ?envB shop (replicate 250 plainEntry)
             (issue (GetFeed shop 1 250) initial))"
    by simp
  from pagination_rule [OF fB pB, where cnt = 0 and s = initial, THEN conjunct2, THEN conjunct1,
         THEN mp, OF full]
  obtain cnt' s1 where
    turn: "apiPage ?envB shop 1 0 initial = Continue cnt' s1" and
    next_turn: "requests (stateOf (apiPage ?envB shop (1 + 1) cnt' s1))
                  = requests (initial :: decimal state)
                      @ [GetFeed shop 1 250, GetFeed shop (1 + 1) 250]"
    by blast
  from turn full_page_turn [of noPages True]
  have "cnt' = 250"
    and "s1 = \<lparr>productsData = replicate 250 plainRecord, requests = [GetFeed shop 1 250],
                 saved = None\<rparr>"
    by simp_all
  with next_turn [unfolded one_add_one] have b: "requests (stateOf
     (apiPage ?envB shop 2 250
        \<lparr>productsData = replicate 250 plainRecord, requests = [GetFeed shop 1 250],
         saved = None\<rparr>))
     = [GetFeed shop 1 250, GetFeed shop 2 250]"
    by (simp add: initial_def)
  have fC: "feedGet ?envC shop 1 250
              = Some (JObj [(''products'', JArr (replicate 249 plainEntry @ [badEntry]))])"
    by simp
  have pC: "getProp (JObj [(''products'', JArr (replicate 249 plainEntry @ [badEntry]))])
              ''products''
              = Some (JArr (replicate 249 plainEntry @ [badEntry]))"
    by (rule getProp_only)
  have bad: "\<not> fst (pushEntries ?envC shop (replicate 249 plainEntry @ [badEntry])
                      (issue (GetFeed shop 1 250) initial))"
    by (simp add: pushEntries_plain_then_bad)
  then have thrown: "length (replicate 249 plainEntry @ [badEntry]) = 250 \<and>
      \<not> fst (pushEntries ?envC shop (replicate 249 plainEntry @ [badEntry])
               (issue (GetFeed shop 1 250) initial))"
    by simp
  from pagination_rule [OF fC pC, where cnt = 0 and s = initial, THEN conjunct2, THEN conjunct2,
         THEN mp, OF thrown]
  have c: "map_option (\<lambda>r. (fst r, requests (snd r))) (apiLoop ?envC shop 1 0 initial)
             = Some (False, [GetFeed shop 1 250])"
    by (auto simp: initial_def)
  from fA a fB ok b fC bad c show ?thesis
    by (simp only:) simp
qed

text \<open>
  The claim as the spec has it fails on a page of exactly 250 entries whose first entry
  throws (it has no \<^verbatim>\<open>variants\<close>): the strategy returns \<^verbatim>\<open>false\<close>, and the only request
  it has issued is the one for page 1. Page 2 is never requested.
\<close>

theorem full_page_not_continued:
  "length (badEntry # replicate 249 plainEntry) = 250 \<and>
   scrapeViaApi (exampleEnv (onePageFeed (badEntry # replicate 249 plainEntry)) noPages True)
     shop initial
     = Some (False, \<lparr>productsData = [], requests = [GetFeed shop 1 250], saved = None\<rparr>)"
  by (simp add: full_page_bad_entry)

text \<open>
  C8. What the code does. \<^verbatim>\<open>normalizeImageUrls\<close> is idempotent: it leaves every
  record it returned unchanged. \<^verbatim>\<open>cleanDescription\<close> leaves a description \<open>d\<close> it
  returned unchanged exactly when \<open>d\<close> holds no \<^verbatim>\<open>style\<close> and no \<^verbatim>\<open>script\<close> block;
  such a block can be left by the first pass, which does not look again at the text it
  has joined.
\<close>

theorem normalization_fixed_points:
  "(normalizeImageUrls p = Some q \<longrightarrow> normalizeImageUrls q = Some q) \<and>
   (cleanDescription (html :: ('n::{linorder,zero}) jsval) = Some d \<longrightarrow>
      (cleanDescription (JStr d :: 'n jsval) = Some d
         \<longleftrightarrow> \<not> hasBlock ''style'' d \<and> \<not> hasBlock ''script'' d))"
proof (intro conjI impI)
  assume "normalizeImageUrls p = Some q"
  then show "normalizeImageUrls q = Some q"
    by (rule normalizeImageUrls_idem)
next
  assume "cleanDescription html = Some d"
  then have t: "trim d = d"
    by (rule cleanDescription_trimmed)
  show "cleanDescription (JStr d :: 'n jsval) = Some d
          \<longleftrightarrow> \<not> hasBlock ''style'' d \<and> \<not> hasBlock ''script'' d"
  proof
    assume "cleanDescription (JStr d :: 'n jsval) = Some d"
    with cleanDescription_changes [of d]
    show "\<not> hasBlock ''style'' d \<and> \<not> hasBlock ''script'' d"
      by blast
  next
    assume "\<not> hasBlock ''style'' d \<and> \<not> hasBlock ''script'' d"
    with t show "cleanDescription (JStr d :: 'n jsval) = Some d"
      by (simp add: cleanDescription_fixed)
  qed
qed

theorem normalization_fixed_points_witness:
  "normalizeImageUrls rawImages
     = Some (rawImages\<lparr>images := [JStr ''https://cdn.x/a.jpg'']\<rparr>) \<and>
   normalizeImageUrls (rawImages\<lparr>images := [JStr ''https://cdn.x/a.jpg'']\<rparr>)
     = Some (rawImages\<lparr>images := [JStr ''https://cdn.x/a.jpg'']\<rparr>) \<and>
   cleanDescription (JStr ''<p>A mug</p>'' :: decimal jsval) = Some ''<p>A mug</p>'' \<and>
   \<not> hasBlock ''style'' ''<p>A mug</p>'' \<and> \<not> hasBlock ''script'' ''<p>A mug</p>''"
proof -
  let ?q = "rawImages\<lparr>images := [JStr ''https://cdn.x/a.jpg'']\<rparr>"
  have n: "normalizeImageUrls rawImages = Some ?q"
    by (simp add: normalizeImageUrls_def normalizeUrl_def rawImages_def startsWith_def)
  note fixed = normalization_fixed_points
                 [of rawImages ?q "JStr ''<p>A mug</p>'' :: decimal jsval" "''<p>A mug</p>''"]
  from fixed n have "normalizeImageUrls ?q = Some ?q"
    by blast
  moreover from fixed clean_mug
  have "\<not> hasBlock ''style'' ''<p>A mug</p>'' \<and> \<not> hasBlock ''script'' ''<p>A mug</p>''"
    by blast
  ultimately show ?thesis
    using n clean_mug by simp
qed

text \<open>
  The claim as the spec has it fails on the record of \<open>splicedEntry\<close>: its description
  is a \<^verbatim>\<open>script\<close> block, and \<^verbatim>\<open>cleanDescription\<close> applied again returns the empty
  string.
\<close>

theorem sanitising_twice_differs:
  "map_option description
     (feedRecord (exampleEnv noFeed noPages True) shop ''2025-03-16T12:00:00.000Z'' splicedEntry)
     = Some ''<script>alert(1)</script>'' \<and>
   cleanDescription (JStr ''<script>alert(1)</script>'' :: decimal jsval) = Some []"
proof -
  have "feedRecord (exampleEnv noFeed noPages True) shop ''2025-03-16T12:00:00.000Z'' splicedEntry
          = Some \<lparr>id' = JUndefined, handle = JStr ''mug'', title = JUndefined,
                  description = ''<script>alert(1)</script>'', price = JNull,
                  images = [JStr ''https://cdn.x/a.jpg''],
                  url = ''https://shop.example/products/mug'', variants = Some JUndefined,
                  timestamp = ''2025-03-16T12:00:00.000Z''\<rparr>"
    by (simp add: feedRecord_def splicedEntry_def clean_spliced getProductPrice_def
          imageSrc_def templateString_def normalizeImageUrls_def normalizeUrl_def
          startsWith_def shop_def)
  then show ?thesis
    by (simp add: clean_script)
qed

text \<open>
  C9. \<^verbatim>\<open>scrape\<close> reaches its \<^verbatim>\<open>catch\<close> exactly when the write of the file throws,
  since each strategy catches its own errors. The list it returns is then empty,
  whatever \<^verbatim>\<open>productsData\<close> holds at that moment; otherwise it is \<^verbatim>\<open>productsData\<close>.
\<close>

theorem scrape_error_returns_empty:
  assumes "scrape env storeUrl s = Some (out, s')"
  shows "out = (if writeFile env then productsData s' else [])"
  using assms
  by (auto simp: scrape_def saveProductsData_def Let_def split: option.splits if_splits)

theorem scrape_error_returns_empty_witness:
  "scrape (exampleEnv (onePageFeed [plainEntry]) noPages False) shop initial
     = Some ([], \<lparr>productsData = [plainRecord], requests = [GetFeed shop 1 250],
                 saved = None\<rparr>) \<and>
   \<not> writeFile (exampleEnv (onePageFeed [plainEntry]) noPages False) \<and>
   ([] :: decimal product list)
     = (if writeFile (exampleEnv (onePageFeed [plainEntry]) noPages False)
        then productsData \<lparr>productsData = [plainRecord], requests = [GetFeed shop 1 250],
                            saved = None\<rparr>
        else [])"
proof -
  let ?env = "exampleEnv (onePageFeed [plainEntry]) noPages False"
  have run: "scrape ?env shop initial
     = Some ([], \<lparr>productsData = [plainRecord], requests = [GetFeed shop 1 250],
                 saved = None\<rparr>)"
    by (simp add: scrape_def single_page saveProductsData_def)
  from scrape_error_returns_empty [OF run] run show ?thesis
    by simp
qed

text \<open>
  C10. On a page whose \<^verbatim>\<open>Product\<close> block (the one the scan keeps) has an \<^verbatim>\<open>image\<close>
  field \<open>v\<close> that is not an array, a record that \<^verbatim>\<open>scrapeProductPage\<close> pushes has
  \<open>images = [v]\<close>. And the record is pushed: when the \<^verbatim>\<open>description\<close> of the block is
  falsy or a string (anything else has no \<^verbatim>\<open>replace\<close>, and the object literal throws)
  and \<^verbatim>\<open>parseFloat\<close> returns on strings, \<^verbatim>\<open>scrapeProductPage\<close> requests the page and
  pushes the record whose \<^verbatim>\<open>id\<close> and \<^verbatim>\<open>handle\<close> are the last segment of the URL, whose
  \<^verbatim>\<open>title\<close>, \<^verbatim>\<open>description\<close> and \<^verbatim>\<open>price\<close> come from the block and whose \<^verbatim>\<open>images\<close>
  is \<open>[v]\<close>. An absent field reads as \<^verbatim>\<open>undefined\<close>, so the record then holds the
  one-element list \<open>[JUndefined]\<close>, not the empty list.
\<close>

theorem structured_image_coerced:
  assumes "pageGet env u = Some pg"
      and "truthy (structuredData (ldJson pg) JNull)"
      and "getProp (structuredData (ldJson pg) JNull) ''image'' = Some v"
      and "\<forall>xs. v \<noteq> JArr xs"
  shows "(\<forall>r. productsData (scrapeProductPage env u s) = productsData s @ [r] \<longrightarrow>
              images r = [v]) \<and>
         (\<forall>d. getProp (structuredData (ldJson pg) JNull) ''description'' = Some d \<and>
              (\<not> truthy d \<or> (\<exists>t. d = JStr t)) \<and>
              (\<forall>t. parseFloat env (JStr t) \<noteq> None) \<longrightarrow>
              (\<exists>nm pd offers pp.
                  getProp (structuredData (ldJson pg) JNull) ''name'' = Some nm \<and>
                  cleanDescription d = Some pd \<and>
                  getProp (structuredData (ldJson pg) JNull) ''offers'' = Some offers \<and>
                  structuredPrice env pg offers = Some pp \<and>
                  scrapeProductPage env u s =
                    push \<lparr>id' = JStr (lastSegment u), handle = JStr (lastSegment u),
                          title = nm, description = pd, price = pp, images = [v], url = u,
                          variants = None,
                          timestamp = clock env (length (productsData s))\<rparr>
                      (issue (GetPage u) s)))"
proof (intro conjI allI impI)
  fix r
  assume pushed: "productsData (scrapeProductPage env u s) = productsData s @ [r]"
  let ?sd = "structuredData (ldJson pg) JNull"
  let ?now = "clock env (length (productsData s))"
  from assms(1,2) pushed obtain r' where
    built: "structuredRecord env pg u ?now ?sd = Some r'" and
    "productsData s @ [r'] = productsData s @ [r]"
    by (cases "structuredRecord env pg u ?now ?sd")
       (auto simp: scrapeProductPage_def Let_def)
  then have "r' = r" by simp
  with built assms(3) have "images r = (case v of JArr xs \<Rightarrow> xs | _ \<Rightarrow> [v])"
    using structuredRecord_images by blast
  with assms(4) show "images r = [v]" by (cases v) auto
next
  fix d
  let ?sd = "structuredData (ldJson pg) JNull"
  let ?now = "clock env (length (productsData s))"
  assume h: "getProp ?sd ''description'' = Some d \<and>
             (\<not> truthy d \<or> (\<exists>t. d = JStr t)) \<and>
             (\<forall>t. parseFloat env (JStr t) \<noteq> None)"
  from assms(2) obtain nm where nm: "getProp ?sd ''name'' = Some nm"
    using getProp_truthy by blast
  from assms(2) obtain offers where offers: "getProp ?sd ''offers'' = Some offers"
    using getProp_truthy by blast
  from h obtain pd where pd: "cleanDescription d = Some pd"
    using cleanDescription_returns [of d] by blast
  from h obtain pp where pp: "structuredPrice env pg offers = Some pp"
    using structuredPrice_returns [of env pg offers] by blast
  from assms(4) have one: "(case v of JArr xs \<Rightarrow> xs | _ \<Rightarrow> [v]) = [v]"
    by (cases v) auto
  from h nm offers pd pp assms(3)
  have "structuredRecord env pg u ?now ?sd =
          Some \<lparr>id' = JStr (lastSegment u), handle = JStr (lastSegment u),
                title = nm, description = pd, price = pp, images = [v], url = u,
                variants = None, timestamp = ?now\<rparr>"
    by (simp add: structuredRecord_def one)
  from scrapeProductPage_structured [OF assms(1,2) this] nm pd offers pp
  show "\<exists>nm pd offers pp.
          getProp ?sd ''name'' = Some nm \<and>
          cleanDescription d = Some pd \<and>
          getProp ?sd ''offers'' = Some offers \<and>
          structuredPrice env pg offers = Some pp \<and>
          scrapeProductPage env u s =
            push \<lparr>id' = JStr (lastSegment u), handle = JStr (lastSegment u),
                  title = nm, description = pd, price = pp, images = [v], url = u,
                  variants = None, timestamp = ?now\<rparr>
              (issue (GetPage u) s)"
    by blast
qed

theorem structured_image_coerced_witness:
  "pageGet (exampleEnv noFeed (onePage mugUrl noImage) True) mugUrl = Some noImage \<and>
   getProp (structuredData (ldJson noImage) JNull) ''image'' = Some JUndefined \<and>
   map images (productsData
     (scrapeProductPage (exampleEnv noFeed (onePage mugUrl noImage) True) mugUrl initial))
     = [[JUndefined]] \<and>
   pageGet (exampleEnv noFeed (onePage mugUrl urlImage) True) mugUrl = Some urlImage \<and>
   getProp (structuredData (ldJson urlImage) JNull) ''image''
     = Some (JStr ''https://cdn.x/a.jpg'') \<and>
   map images (productsData
     (scrapeProductPage (exampleEnv noFeed (onePage mugUrl urlImage) True) mugUrl initial))
     = [[JStr ''https://cdn.x/a.jpg'']] \<and>
   pageGet (exampleEnv noFeed (onePage mugUrl objectImage) True) mugUrl = Some objectImage \<and>
   getProp (structuredData (ldJson objectImage) JNull) ''image''
     = Some (JObj [(''@type'', JStr ''ImageObject''), (''url'', JStr ''https://cdn.x/a.jpg'')]) \<and>
   map images (productsData
     (scrapeProductPage (exampleEnv noFeed (onePage mugUrl objectImage) True) mugUrl initial))
     = [[JObj [(''@type'', JStr ''ImageObject''), (''url'', JStr ''https://cdn.x/a.jpg'')]]]"
proof -
  let ?envA = "exampleEnv noFeed (onePage mugUrl noImage) True"
  let ?envB = "exampleEnv noFeed (onePage mugUrl urlImage) True"
  let ?envC = "exampleEnv noFeed (onePage mugUrl objectImage) True"
  let ?obj = "JObj [(''@type'', JStr ''ImageObject''), (''url'', JStr ''https://cdn.x/a.jpg'')]
                :: decimal jsval"
  have sdA: "structuredData (ldJson noImage) JNull
               = JObj [(''@type'', JStr ''Product''), (''name'', JStr ''Mug'')]"
    by (simp add: noImage_def ldPage_def)
  have sdB: "structuredData (ldJson urlImage) JNull
               = JObj [(''@type'', JStr ''Product''), (''name'', JStr ''Mug''),
                       (''image'', JStr ''https://cdn.x/a.jpg'')]"
    by (simp add: urlImage_def ldPage_def)
  have sdC: "structuredData (ldJson objectImage) JNull
               = JObj [(''@type'', JStr ''Product''), (''name'', JStr ''Mug''),
                       (''image'', ?obj)]"
    by (simp add: objectImage_def ldPage_def)
  have pA: "pageGet ?envA mugUrl = Some noImage"
    by simp
  have pB: "pageGet ?envB mugUrl = Some urlImage"
    by simp
  have pC: "pageGet ?envC mugUrl = Some objectImage"
    by simp
  have tA: "truthy (structuredData (ldJson noImage) JNull)"
    by (simp add: sdA)
  have tB: "truthy (structuredData (ldJson urlImage) JNull)"
    by (simp add: sdB)
  have tC: "truthy (structuredData (ldJson objectImage) JNull)"
    by (simp add: sdC)
  have iA: "getProp (structuredData (ldJson noImage) JNull) ''image'' = Some JUndefined"
    by (simp add: sdA)
  have iB: "getProp (structuredData (ldJson urlImage) JNull) ''image''
              = Some (JStr ''https://cdn.x/a.jpg'')"
    by (simp add: sdB)
  have iC: "getProp (structuredData (ldJson objectImage) JNull) ''image'' = Some ?obj"
    by (simp add: sdC)
  have nA: "\<forall>xs. (JUndefined :: decimal jsval) \<noteq> JArr xs"
    by simp
  have nB: "\<forall>xs. (JStr ''https://cdn.x/a.jpg'' :: decimal jsval) \<noteq> JArr xs"
    by simp
  have nC: "\<forall>xs. ?obj \<noteq> JArr xs"
    by simp
  have cA: "getProp (structuredData (ldJson noImage) JNull) ''description'' = Some JUndefined \<and>
            (\<not> truthy (JUndefined :: decimal jsval) \<or> (\<exists>t. (JUndefined :: decimal jsval) = JStr t)) \<and>
            (\<forall>t. parseFloat ?envA (JStr t) \<noteq> None)"
    by (simp add: sdA)
  have cB: "getProp (structuredData (ldJson urlImage) JNull) ''description'' = Some JUndefined \<and>
            (\<not> truthy (JUndefined :: decimal jsval) \<or> (\<exists>t. (JUndefined :: decimal jsval) = JStr t)) \<and>
            (\<forall>t. parseFloat ?envB (JStr t) \<noteq> None)"
    by (simp add: sdB)
  have cC: "getProp (structuredData (ldJson objectImage) JNull) ''description'' = Some JUndefined \<and>
            (\<not> truthy (JUndefined :: decimal jsval) \<or> (\<exists>t. (JUndefined :: decimal jsval) = JStr t)) \<and>
            (\<forall>t. parseFloat ?envC (JStr t) \<noteq> None)"
    by (simp add: sdC)
  from structured_image_coerced [OF pA tA iA nA, of initial, THEN conjunct2, THEN spec, THEN mp,
         OF cA]
  have a: "map images (productsData (scrapeProductPage ?envA mugUrl initial)) = [[JUndefined]]"
    by (auto simp: initial_def)
  from structured_image_coerced [OF pB tB iB nB, of initial, THEN conjunct2, THEN spec, THEN mp,
         OF cB]
  have b: "map images (productsData (scrapeProductPage ?envB mugUrl initial))
             = [[JStr ''https://cdn.x/a.jpg'']]"
    by (auto simp: initial_def)
  from structured_image_coerced [OF pC tC iC nC, of initial, THEN conjunct2, THEN spec, THEN mp,
         OF cC]
  have c: "map images (productsData (scrapeProductPage ?envC mugUrl initial)) = [[?obj]]"
    by (auto simp: initial_def)
  from pA iA a pB iB b pC iC c show ?thesis
    by (simp only:)
qed

end
